theory Spec2Isabelle
  imports Main "HOL-Library.AList"
begin

section \<open>Release specifications: template generation and validation\<close>

text \<open>
  A shallow embedding of \<^verbatim>\<open>src/release-specification.ts\<close>: the generator of the release
  specification template and the validator of the edited document.

  Conventions of the embedding.
  \<^item> A plain JavaScript object is an association list with distinct keys, in the order
    in which the properties were created. \<^verbatim>\<open>{...obj, [k]: v}\<close> is
    \<open>AList.update k v obj\<close>. \<^verbatim>\<open>Object.entries\<close>, \<^verbatim>\<open>Object.keys\<close> and
    \<^verbatim>\<open>Object.values\<close> list the properties in property order (\<open>own_entries\<close>): keys
    that are array indices first, in ascending order, then the others in the order of
    creation. \<^verbatim>\<open>obj[k]\<close> is \<open>lookup obj k\<close>, which finds the own properties and the
    members that every plain object inherits from \<^verbatim>\<open>Object.prototype\<close>.
  \<^item> A thrown error is the left summand of the result.
  \<^item> What \<^verbatim>\<open>YAML.parse\<close> returns is a value of the type \<open>yaml\<close>: the entries under
    \<^verbatim>\<open>packages\<close> hold any value, whatever the annotation \<^verbatim>\<open>string | null\<close> says.
  \<^item> The file system, the YAML library and the semver library are parameters.
\<close>

subsection \<open>Values and objects\<close>

text \<open>
  The values of a parsed YAML document. \<open>YNum s\<close> is the number that JavaScript prints
  as \<open>s\<close> (\<^verbatim>\<open>String(n)\<close>): \<^verbatim>\<open>0\<close>, \<^verbatim>\<open>5\<close>, \<^verbatim>\<open>1.5\<close>, \<^verbatim>\<open>NaN\<close>. A mapping is a plain
  object.
\<close>

datatype yaml =
    YNull
  | YBool bool
  | YNum string
  | YStr string
  | YSeq "yaml list"
  | YMap "(string \<times> yaml) list"

text \<open>
  Truthiness: \<^verbatim>\<open>null\<close>, \<^verbatim>\<open>false\<close>, the numbers \<^verbatim>\<open>0\<close> and \<^verbatim>\<open>NaN\<close> and the empty
  string are falsy; every other value, any sequence and any mapping included, is truthy.
\<close>

fun truthy :: "yaml \<Rightarrow> bool" where
  "truthy YNull = False"
| "truthy (YBool b) = b"
| "truthy (YNum s) = (s \<noteq> ''0'' \<and> s \<noteq> ''NaN'')"
| "truthy (YStr s) = (s \<noteq> [])"
| "truthy (YSeq xs) = True"
| "truthy (YMap m) = True"

text \<open>\<^verbatim>\<open>lines.join('\n')\<close>, \<^verbatim>\<open>parts.join('\n\n')\<close> and \<^verbatim>\<open>array.join(',')\<close> on strings\<close>

fun join_with :: "string \<Rightarrow> string list \<Rightarrow> string" where
  "join_with sep [] = []"
| "join_with sep [l] = l"
| "join_with sep (l # ls) = l @ sep @ join_with sep ls"

text \<open>
  The conversion of a value to a string, which is also its conversion to a property key:
  a sequence is the texts of its elements joined by commas, with nothing for an element
  \<^verbatim>\<open>null\<close>.
\<close>

fun to_string :: "yaml \<Rightarrow> string" where
  "to_string YNull = ''null''"
| "to_string (YBool b) = (if b then ''true'' else ''false'')"
| "to_string (YNum s) = s"
| "to_string (YStr s) = s"
| "to_string (YSeq xs) = join_with '','' (map (\<lambda>x. if x = YNull then [] else to_string x) xs)"
| "to_string (YMap m) = ''[object Object]''"

text \<open>
  The result of reading a property: \<^verbatim>\<open>undefined\<close>, an own property with its value, or
  a member inherited from the prototype. The inherited members are functions, or the
  prototype itself for \<^verbatim>\<open>__proto__\<close>: they are truthy and have none of the properties
  that the program reads.
\<close>

datatype 'a property = Absent | Own 'a | Inherited

definition Object_prototype :: "string list" where
  "Object_prototype =
     [''constructor'', ''__defineGetter__'', ''__defineSetter__'', ''hasOwnProperty'',
      ''__lookupGetter__'', ''__lookupSetter__'', ''isPrototypeOf'', ''propertyIsEnumerable'',
      ''toString'', ''valueOf'', ''__proto__'', ''toLocaleString'']"

definition lookup :: "(string \<times> 'a) list \<Rightarrow> string \<Rightarrow> 'a property" where
  "lookup obj k =
     (case map_of obj k of
        Some v \<Rightarrow> Own v
      | None \<Rightarrow> if k \<in> set Object_prototype then Inherited else Absent)"

fun truthy_property :: "yaml property \<Rightarrow> bool" where
  "truthy_property Absent = False"
| "truthy_property (Own v) = truthy v"
| "truthy_property Inherited = True"

text \<open>
  Modelled from the spec: \<^verbatim>\<open>hasProperty\<close> and \<^verbatim>\<open>isObject\<close> are imported from
  \<^verbatim>\<open>./misc-utils\<close>, which is not among the source files. \<open>hasProperty obj k\<close> holds when
  \<open>k\<close> is an own property of \<open>obj\<close>; \<^verbatim>\<open>isObject\<close> holds of the mappings.
\<close>

definition hasProperty :: "(string \<times> 'a) list \<Rightarrow> string \<Rightarrow> bool" where
  "hasProperty obj k = (k \<in> set (map fst obj))"

text \<open>\<^verbatim>\<open>{...a, ...b}\<close>\<close>

definition spread :: "(string \<times> 'a) list \<Rightarrow> (string \<times> 'a) list \<Rightarrow> (string \<times> 'a) list" where
  "spread a b = fold (\<lambda>(k, v) obj. AList.update k v obj) b a"

text \<open>
  Decimal numerals without leading zeros, and the keys that are array indices: the
  numerals of the numbers below \<open>2\<^sup>3\<^sup>2 - 1\<close>.
\<close>

definition numeral_value :: "string \<Rightarrow> nat option" where
  "numeral_value ds =
     (if ds = [] \<or> \<not> list_all (\<lambda>c. c \<in> set ''0123456789'') ds \<or>
         (length ds > 1 \<and> hd ds = CHR ''0'')
      then None
      else Some (fold (\<lambda>c n. 10 * n +
                   the (map_of (zip ''0123456789'' [0, 1, 2, 3, 4, 5, 6, 7, 8, 9]) c)) ds 0))"

definition array_index :: "string \<Rightarrow> nat option" where
  "array_index k =
     (case numeral_value k of
        None \<Rightarrow> None
      | Some n \<Rightarrow> if n < 4294967295 then Some n else None)"

text \<open>The own properties of a plain object in property order.\<close>

definition own_entries :: "(string \<times> 'a) list \<Rightarrow> (string \<times> 'a) list" where
  "own_entries obj =
     sort_key (\<lambda>e. the (array_index (fst e))) (filter (\<lambda>e. array_index (fst e) \<noteq> None) obj)
     @ filter (\<lambda>e. array_index (fst e) = None) obj"

fun string_of_nat :: "nat \<Rightarrow> string" where
  "string_of_nat n =
     (if n < 10 then [''0123456789'' ! n]
      else string_of_nat (n div 10) @ [''0123456789'' ! (n mod 10)])"

definition indexed :: "'a list \<Rightarrow> (string \<times> 'a) list" where
  "indexed xs = zip (map string_of_nat [0..<length xs]) xs"

datatype malformed = NotValidYaml | NotAnObjectWithPackages

subsection \<open>Data model\<close>

text \<open>
  Modelled from the spec: the types \<^verbatim>\<open>Project\<close> and \<^verbatim>\<open>Package\<close> are imported from
  \<^verbatim>\<open>./project\<close>, which is not among the source files. The records hold the fields that
  the source reads; a version is kept as its string; \<^verbatim>\<open>workspacePackages\<close> and the
  dependencies are plain objects.
\<close>

record ValidatedPackageManifest =
  name :: string
  version :: string
  dependencies :: "(string \<times> string) list"
  peerDependencies :: "(string \<times> string) list"

record Package =
  validatedManifest :: ValidatedPackageManifest
  hasChangesSinceLatestRelease :: bool

record Project =
  rootPackage :: Package
  workspacePackages :: "(string \<times> Package) list"

text \<open>
  The invariant of a project stated by the spec: the keys of \<^verbatim>\<open>workspacePackages\<close> are
  distinct and each key is the name of its package.
\<close>

definition project_invariant :: "Project \<Rightarrow> bool" where
  "project_invariant project =
     (distinct (map fst (workspacePackages project)) \<and>
      list_all (\<lambda>(k, pkg). name (validatedManifest pkg) = k) (workspacePackages project))"

datatype IncrementableVersionParts = major | minor | patch

text \<open>The enum as the object it compiles to: each key with its member.\<close>

definition IncrementableVersionParts_object :: "(string \<times> IncrementableVersionParts) list" where
  "IncrementableVersionParts_object = [(''major'', major), (''minor'', minor), (''patch'', patch)]"

fun enum_value :: "IncrementableVersionParts \<Rightarrow> string" where
  "enum_value major = ''major''"
| "enum_value minor = ''minor''"
| "enum_value patch = ''patch''"

text \<open>
  \<^verbatim>\<open>type VersionSpecifier = IncrementableVersionParts | SemVer\<close>. \<open>Parsed s\<close> is the value
  of \<^verbatim>\<open>semver.parse(s)\<close> for a string \<open>s\<close>; \<open>NotParsed\<close> is \<^verbatim>\<open>null\<close>, the value of
  \<^verbatim>\<open>semver.parse\<close> for a value that is not a string, which the type does not list.
\<close>

datatype VersionSpecifier = Increment IncrementableVersionParts | Parsed string | NotParsed

record ReleaseSpecification =
  packages :: "(string \<times> VersionSpecifier) list"
  path :: string

definition SKIP_PACKAGE_DIRECTIVE :: yaml where
  "SKIP_PACKAGE_DIRECTIVE = YNull"

definition INTENTIONALLY_SKIP_PACKAGE_DIRECTIVE :: string where
  "INTENTIONALLY_SKIP_PACKAGE_DIRECTIVE = ''intentionally-skip''"

subsection \<open>Errors\<close>

text \<open>
  The entries of the \<^verbatim>\<open>errors\<close> array. The message of an entry is kept as the kind of
  the problem with the values that the message text interpolates:
  \<^item> \<open>NotAPackage n\<close>: \<^verbatim>\<open>"n" is not a package in the project\<close>;
  \<^item> \<open>InvalidVersionSpecifier v n\<close>: \<^verbatim>\<open>v is not a valid version specifier for package "n"\<close>,
    \<^verbatim>\<open>(must be "major", "minor", or "patch"; or a version string ...)\<close>;
  \<^item> \<open>AlreadyAtVersion v n\<close>: \<^verbatim>\<open>v is not a valid version specifier for package "n"\<close>,
    \<^verbatim>\<open>("n" is already at version "v")\<close>;
  \<^item> \<open>AtGreaterVersion v n c\<close>: \<^verbatim>\<open>v is not a valid version specifier for package "n"\<close>,
    \<^verbatim>\<open>("n" is at a greater version "c")\<close>;
  \<^item> \<open>MissingDependents n ds\<close>: \<^verbatim>\<open>The following dependents of package 'n', which is being\<close>
    \<^verbatim>\<open>released with a major version bump, are missing from the release spec.\<close> with the
    list \<open>ds\<close>;
  \<^item> \<open>MissingDependencies n ds\<close>: \<^verbatim>\<open>The following packages, which are dependencies or peer\<close>
    \<^verbatim>\<open>dependencies of the package 'n' being released, are missing from the release spec.\<close>
    with the list \<open>ds\<close>.
\<close>

datatype message =
    NotAPackage string
  | InvalidVersionSpecifier yaml string
  | AlreadyAtVersion string string
  | AtGreaterVersion string string string
  | MissingDependents string "string list"
  | MissingDependencies string "string list"

record validation_error =
  message :: message
  lineNumber :: "int option"

text \<open>
  What the two functions throw. The source throws plain \<^verbatim>\<open>Error\<close> objects; the
  constructors carry the names of the spec's taxonomy. \<open>TypeError\<close> is the runtime error
  of reading a property of \<^verbatim>\<open>undefined\<close> or \<^verbatim>\<open>null\<close>.
\<close>

datatype thrown =
    EmptyReleaseSetError
  | MalformedDocumentError malformed
  | ReleaseSpecificationError "validation_error list"
  | TypeError

text \<open>
  \<^verbatim>\<open>Object.entries(value)\<close>: the entries of a mapping in property order; the elements of
  a sequence and the characters of a string under their indices; nothing for a number
  or a boolean; a \<^verbatim>\<open>TypeError\<close> for \<^verbatim>\<open>null\<close>.
\<close>

fun object_entries :: "yaml \<Rightarrow> thrown + (string \<times> yaml) list" where
  "object_entries (YMap es) = Inr (own_entries es)"
| "object_entries (YSeq xs) = Inr (indexed xs)"
| "object_entries (YStr s) = Inr (indexed (map (\<lambda>c. YStr [c]) s))"
| "object_entries (YNum n) = Inr []"
| "object_entries (YBool b) = Inr []"
| "object_entries YNull = Inl TypeError"

text \<open>
  \<^verbatim>\<open>value[k]\<close> for the value of \<^verbatim>\<open>packages\<close>. A sequence and a string have their
  elements or characters and \<^verbatim>\<open>length\<close> as own properties; of what they inherit, the
  members of \<^verbatim>\<open>Object.prototype\<close> are modelled, the methods of \<^verbatim>\<open>Array.prototype\<close> and
  \<^verbatim>\<open>String.prototype\<close> are not. The validator reads no property of a number, a boolean
  or \<^verbatim>\<open>null\<close>: they have no entries.
\<close>

fun get_property :: "yaml \<Rightarrow> string \<Rightarrow> yaml property" where
  "get_property (YMap m) k = lookup m k"
| "get_property (YSeq xs) k =
     lookup (indexed xs @ [(''length'', YNum (string_of_nat (length xs)))]) k"
| "get_property (YStr s) k =
     lookup (indexed (map (\<lambda>c. YStr [c]) s) @ [(''length'', YNum (string_of_nat (length s)))]) k"
| "get_property v k = Absent"

subsection \<open>Library functions\<close>

text \<open>
  The semver library is a parameter of the validator (\<^verbatim>\<open>./semver\<close> and the
  \<^verbatim>\<open>semver\<close> package are not among the source files): \<open>isValidSemver s\<close> for
  \<^verbatim>\<open>isValidSemver(s)\<close> on a string, \<open>compare v c\<close> for \<^verbatim>\<open>new SemVer(v).compare(c)\<close>, and
  \<open>diff c v\<close> for \<^verbatim>\<open>diff(c, v)\<close> (\<open>None\<close> is \<^verbatim>\<open>null\<close>).
\<close>

record semver_ops =
  isValidSemver :: "string \<Rightarrow> bool"
  compare :: "string \<Rightarrow> string \<Rightarrow> int"
  diff :: "string \<Rightarrow> string \<Rightarrow> string option"

text \<open>
  \<^verbatim>\<open>isValidSemver\<close> applied to any value. The source uses it as a type guard for
  strings (after it, the value is passed to \<^verbatim>\<open>new SemVer\<close> and to \<^verbatim>\<open>diff\<close>), so it
  holds of no value that is not a string.
\<close>

fun is_valid_semver :: "semver_ops \<Rightarrow> yaml \<Rightarrow> bool" where
  "is_valid_semver L (YStr s) = isValidSemver L s"
| "is_valid_semver L v = False"

subsection \<open>Text\<close>

definition newline :: char where
  "newline = CHR 0x0A"

text \<open>\<^verbatim>\<open>s.split(sep)\<close> for a separator of one character, and \<^verbatim>\<open>contents.split('\n')\<close>\<close>

fun split_on :: "char \<Rightarrow> string \<Rightarrow> string list" where
  "split_on sep [] = [[]]"
| "split_on sep (c # cs) =
     (if c = sep then [] # split_on sep cs
      else (case split_on sep cs of
              [] \<Rightarrow> [[c]]
            | l # ls \<Rightarrow> (c # l) # ls))"

definition split_lines :: "string \<Rightarrow> string list" where
  "split_lines contents = split_on newline contents"

text \<open>\<^verbatim>\<open>/^#|[ ]+/u.test(line)\<close>: the line begins with \<^verbatim>\<open>#\<close>, or a space occurs in it.\<close>

definition matches_comment_or_space :: "string \<Rightarrow> bool" where
  "matches_comment_or_space line =
     ((case line of [] \<Rightarrow> False | c # _ \<Rightarrow> c = CHR ''#'') \<or> CHR '' '' \<in> set line)"

text \<open>\<^verbatim>\<open>lines.findIndex(p)\<close>: the index of the first element satisfying \<open>p\<close>, or \<open>-1\<close>.\<close>

fun findIndex_from :: "('a \<Rightarrow> bool) \<Rightarrow> nat \<Rightarrow> 'a list \<Rightarrow> int" where
  "findIndex_from p i [] = -1"
| "findIndex_from p i (x # xs) = (if p x then int i else findIndex_from p (Suc i) xs)"

definition findIndex :: "('a \<Rightarrow> bool) \<Rightarrow> 'a list \<Rightarrow> int" where
  "findIndex p xs = findIndex_from p 0 xs"

definition indexOfFirstUsableLine :: "string \<Rightarrow> int" where
  "indexOfFirstUsableLine releaseSpecificationContents =
     findIndex (\<lambda>line. \<not> matches_comment_or_space line)
       (split_lines releaseSpecificationContents)"

text \<open>The line number that the validator attributes to the entry at \<open>index\<close>.\<close>

definition lineNumber_of :: "int \<Rightarrow> nat \<Rightarrow> int" where
  "lineNumber_of firstUsable index = firstUsable + int index + 2"

subsection \<open>The template generator\<close>

text \<open>
  The instructions that open the template, one string per line. Each is a comment line
  of the document.
\<close>

definition afterEditingInstructions :: "bool \<Rightarrow> string list" where
  \<open>afterEditingInstructions isEditorAvailable =
     (if isEditorAvailable
      then [''# When you're finished making your selections, save this file and'',
            ''# create-release-branch will continue automatically.'']
      else [''# When you're finished making your selections, save this file and then re-run'',
            ''# create-release-branch.''])\<close>

definition instruction_lines :: "Package \<Rightarrow> bool \<Rightarrow> string list" where
  \<open>instruction_lines root isEditorAvailable =
     [''# The following is a list of packages in '' @ name (validatedManifest root) @ ''.'',
      ''# Please indicate the packages for which you want to create a new release'',
      ''# by updating "null" to one of the following:'',
      ''#'',
      ''# - "major" (if you want to bump the major part of the package's version)'',
      ''# - "minor" (if you want to bump the minor part of the package's version)'',
      ''# - "patch" (if you want to bump the patch part of the package's version)'',
      ''# - an exact version with major, minor, and patch parts (e.g. "1.2.3")'',
      ''# - intentionally-skip (to skip the package entirely)'',
      ''#'']
     @ afterEditingInstructions isEditorAvailable\<close>

definition instructions :: "Package \<Rightarrow> bool \<Rightarrow> string" where
  "instructions root isEditorAvailable =
     join_with [newline] (instruction_lines root isEditorAvailable)"

text \<open>\<^verbatim>\<open>Object.values(workspacePackages).filter((pkg) => pkg.hasChangesSinceLatestRelease)\<close>\<close>

definition changedWorkspacePackages :: "Project \<Rightarrow> Package list" where
  "changedWorkspacePackages project =
     filter (\<lambda>pkg. hasChangesSinceLatestRelease pkg)
       (map snd (own_entries (workspacePackages project)))"

text \<open>
  The object built by \<^verbatim>\<open>changedWorkspacePackages.reduce\<close>: one property per package
  name, each with the value \<^verbatim>\<open>SKIP_PACKAGE_DIRECTIVE\<close>.
\<close>

definition template_packages :: "Project \<Rightarrow> (string \<times> yaml) list" where
  "template_packages project =
     fold (\<lambda>pkg obj. AList.update (name (validatedManifest pkg)) SKIP_PACKAGE_DIRECTIVE obj)
       (changedWorkspacePackages project) []"

text \<open>\<open>stringify\<close> is \<^verbatim>\<open>YAML.stringify\<close>, applied to the object \<^verbatim>\<open>{ packages }\<close>.\<close>

definition generateReleaseSpecificationTemplateForMonorepo ::
  "(yaml \<Rightarrow> string) \<Rightarrow> Project \<Rightarrow> bool \<Rightarrow> thrown + string" where
  "generateReleaseSpecificationTemplateForMonorepo stringify project isEditorAvailable =
     (if length (changedWorkspacePackages project) = 0 then Inl EmptyReleaseSetError
      else Inr (join_with [newline, newline]
                  [instructions (rootPackage project) isEditorAvailable,
                   stringify (YMap [(''packages'', YMap (template_packages project))])]))"

subsection \<open>The validator\<close>

text \<open>
  The names of the workspace packages that declare \<open>changedPackageName\<close> as a dependency
  or peer dependency, that have changes, and for which the document has no truthy
  property.
\<close>

definition dependentNames :: "Project \<Rightarrow> string \<Rightarrow> string list" where
  "dependentNames project changedPackageName =
     filter (\<lambda>possibleDependentName.
        case lookup (workspacePackages project) possibleDependentName of
          Own possibleDependent \<Rightarrow>
            hasProperty (dependencies (validatedManifest possibleDependent)) changedPackageName \<or>
            hasProperty (peerDependencies (validatedManifest possibleDependent)) changedPackageName
        | _ \<Rightarrow> False)
       (map fst (own_entries (workspacePackages project)))"

definition changedDependentNames :: "Project \<Rightarrow> string \<Rightarrow> string list" where
  "changedDependentNames project changedPackageName =
     filter (\<lambda>possibleDependentName.
        case lookup (workspacePackages project) possibleDependentName of
          Own possibleDependent \<Rightarrow> hasChangesSinceLatestRelease possibleDependent
        | _ \<Rightarrow> False)
       (dependentNames project changedPackageName)"

definition missingDependentNames :: "Project \<Rightarrow> yaml \<Rightarrow> string \<Rightarrow> string list" where
  "missingDependentNames project unvalidatedPackages changedPackageName =
     filter (\<lambda>dependentName. \<not> truthy_property (get_property unvalidatedPackages dependentName))
       (changedDependentNames project changedPackageName)"

text \<open>
  The dependencies and peer dependencies of \<open>changedPackage\<close> that are workspace packages
  with changes and for which the document has no truthy property. An inherited member
  of \<^verbatim>\<open>workspacePackages\<close> has no \<^verbatim>\<open>hasChangesSinceLatestRelease\<close>.
\<close>

definition missingDependencies :: "Project \<Rightarrow> yaml \<Rightarrow> Package \<Rightarrow> string list" where
  "missingDependencies project unvalidatedPackages changedPackage =
     filter (\<lambda>dependency.
        (case lookup (workspacePackages project) dependency of
           Own pkg \<Rightarrow> hasChangesSinceLatestRelease pkg
         | _ \<Rightarrow> False) \<and>
        \<not> truthy_property (get_property unvalidatedPackages dependency))
       (map fst (own_entries (spread (dependencies (validatedManifest changedPackage))
                                     (peerDependencies (validatedManifest changedPackage)))))"

text \<open>
  The five checks of the callback of \<^verbatim>\<open>forEach\<close>, in the order of the source. Each
  yields the errors it pushes. \<open>changedPackage\<close> is
  \<^verbatim>\<open>project.workspacePackages[changedPackageName]\<close>; the third, the fourth and the fifth
  check read \<^verbatim>\<open>changedPackage.validatedManifest\<close> and a property of it, which throws
  when \<open>changedPackage\<close> is \<^verbatim>\<open>undefined\<close> or an inherited member.
\<close>

definition check_package_exists ::
  "Package property \<Rightarrow> string \<Rightarrow> int \<Rightarrow> validation_error list" where
  "check_package_exists changedPackage changedPackageName line =
     (if changedPackage = Absent
      then [\<lparr>message = NotAPackage changedPackageName, lineNumber = Some line\<rparr>]
      else [])"

definition check_specifier :: "semver_ops \<Rightarrow> string \<Rightarrow> yaml \<Rightarrow> int \<Rightarrow> validation_error list" where
  "check_specifier L changedPackageName versionSpecifierOrDirective line =
     (if versionSpecifierOrDirective \<noteq> SKIP_PACKAGE_DIRECTIVE \<and>
         versionSpecifierOrDirective \<noteq> YStr INTENTIONALLY_SKIP_PACKAGE_DIRECTIVE \<and>
         \<not> hasProperty IncrementableVersionParts_object (to_string versionSpecifierOrDirective) \<and>
         \<not> is_valid_semver L versionSpecifierOrDirective
      then [\<lparr>message = InvalidVersionSpecifier versionSpecifierOrDirective changedPackageName,
             lineNumber = Some line\<rparr>]
      else [])"

definition check_version ::
  "semver_ops \<Rightarrow> Package property \<Rightarrow> string \<Rightarrow> yaml \<Rightarrow> int \<Rightarrow> thrown + validation_error list" where
  "check_version L changedPackage changedPackageName versionSpecifierOrDirective line =
     (case versionSpecifierOrDirective of
        YStr v \<Rightarrow>
          if isValidSemver L v then
            (case changedPackage of
               Own pkg \<Rightarrow>
                 (let comparison = compare L v (version (validatedManifest pkg)) in
                  if comparison = 0
                  then Inr [\<lparr>message = AlreadyAtVersion v changedPackageName,
                              lineNumber = Some line\<rparr>]
                  else if comparison < 0
                  then Inr [\<lparr>message = AtGreaterVersion v changedPackageName
                                          (version (validatedManifest pkg)),
                              lineNumber = Some line\<rparr>]
                  else Inr [])
             | _ \<Rightarrow> Inl TypeError)
          else Inr []
      | _ \<Rightarrow> Inr [])"

text \<open>
  The condition of the fourth check: \<^verbatim>\<open>v === 'major' || (isValidSemver(v) &&\<close>
  \<^verbatim>\<open>diff(changedPackage.validatedManifest.version, v) === 'major')\<close>.
\<close>

definition is_major_bump :: "semver_ops \<Rightarrow> Package property \<Rightarrow> yaml \<Rightarrow> thrown + bool" where
  "is_major_bump L changedPackage versionSpecifierOrDirective =
     (case versionSpecifierOrDirective of
        YStr v \<Rightarrow>
          if v = ''major'' then Inr True
          else if isValidSemver L v then
            (case changedPackage of
               Own pkg \<Rightarrow> Inr (diff L (version (validatedManifest pkg)) v = Some ''major'')
             | _ \<Rightarrow> Inl TypeError)
          else Inr False
      | _ \<Rightarrow> Inr False)"

definition check_dependents ::
  "semver_ops \<Rightarrow> Project \<Rightarrow> yaml \<Rightarrow> Package property \<Rightarrow> string \<Rightarrow> yaml
     \<Rightarrow> thrown + validation_error list" where
  "check_dependents L project unvalidatedPackages changedPackage changedPackageName
       versionSpecifierOrDirective =
     (case is_major_bump L changedPackage versionSpecifierOrDirective of
        Inl e \<Rightarrow> Inl e
      | Inr False \<Rightarrow> Inr []
      | Inr True \<Rightarrow>
          (let missing = missingDependentNames project unvalidatedPackages changedPackageName in
           if length missing > 0
           then Inr [\<lparr>message = MissingDependents changedPackageName missing, lineNumber = None\<rparr>]
           else Inr []))"

text \<open>
  The fifth check: \<^verbatim>\<open>changedPackage && v && (hasProperty(IncrementableVersionParts, v)\<close>
  \<^verbatim>\<open>|| isValidSemver(v))\<close>, then the dependencies of the package.
\<close>

definition check_dependencies ::
  "semver_ops \<Rightarrow> Project \<Rightarrow> yaml \<Rightarrow> Package property \<Rightarrow> string \<Rightarrow> yaml
     \<Rightarrow> thrown + validation_error list" where
  "check_dependencies L project unvalidatedPackages changedPackage changedPackageName
       versionSpecifierOrDirective =
     (if changedPackage \<noteq> Absent \<and> truthy versionSpecifierOrDirective \<and>
         (hasProperty IncrementableVersionParts_object (to_string versionSpecifierOrDirective) \<or>
          is_valid_semver L versionSpecifierOrDirective)
      then (case changedPackage of
              Own pkg \<Rightarrow>
                (let missing = missingDependencies project unvalidatedPackages pkg in
                 if length missing > 0
                 then Inr [\<lparr>message = MissingDependencies changedPackageName missing,
                             lineNumber = None\<rparr>]
                 else Inr [])
            | _ \<Rightarrow> Inl TypeError)
      else Inr [])"

text \<open>
  The callback: the errors pushed for one entry, in order, or the error thrown while the
  entry is processed.
\<close>

definition validate_entry ::
  "semver_ops \<Rightarrow> Project \<Rightarrow> yaml \<Rightarrow> int \<Rightarrow> nat \<Rightarrow> string \<times> yaml
     \<Rightarrow> thrown + validation_error list" where
  "validate_entry L project unvalidatedPackages firstUsable index entry =
     (let changedPackageName = fst entry;
          versionSpecifierOrDirective = snd entry;
          line = lineNumber_of firstUsable index;
          changedPackage = lookup (workspacePackages project) changedPackageName;
          unknownErrors = check_package_exists changedPackage changedPackageName line;
          specifierErrors = check_specifier L changedPackageName versionSpecifierOrDirective line
      in case check_version L changedPackage changedPackageName versionSpecifierOrDirective line of
           Inl e \<Rightarrow> Inl e
         | Inr versionErrors \<Rightarrow>
             (case check_dependents L project unvalidatedPackages changedPackage
                     changedPackageName versionSpecifierOrDirective of
                Inl e \<Rightarrow> Inl e
              | Inr dependentErrors \<Rightarrow>
                  (case check_dependencies L project unvalidatedPackages changedPackage
                          changedPackageName versionSpecifierOrDirective of
                     Inl e \<Rightarrow> Inl e
                   | Inr dependencyErrors \<Rightarrow>
                       Inr (unknownErrors @ specifierErrors @ versionErrors @ dependentErrors
                            @ dependencyErrors))))"

text \<open>
  \<^verbatim>\<open>Object.entries(packages).forEach(callback)\<close> with the array \<^verbatim>\<open>errors\<close> passed along:
  an error thrown by the callback ends the loop.
\<close>

fun forEach_entry ::
  "semver_ops \<Rightarrow> Project \<Rightarrow> yaml \<Rightarrow> int \<Rightarrow> nat \<Rightarrow> (string \<times> yaml) list
     \<Rightarrow> validation_error list \<Rightarrow> thrown + validation_error list" where
  "forEach_entry L project unvalidatedPackages firstUsable index [] errors = Inr errors"
| "forEach_entry L project unvalidatedPackages firstUsable index (entry # entries) errors =
     (case validate_entry L project unvalidatedPackages firstUsable index entry of
        Inl e \<Rightarrow> Inl e
      | Inr pushed \<Rightarrow>
          forEach_entry L project unvalidatedPackages firstUsable (Suc index) entries
            (errors @ pushed))"

text \<open>
  The final \<^verbatim>\<open>reduce\<close> over \<^verbatim>\<open>Object.keys(packages)\<close>: the entries whose value is
  neither \<^verbatim>\<open>null\<close> nor \<^verbatim>\<open>intentionally-skip\<close> become version specifiers, a member of
  the enum when the value is one of its strings, \<^verbatim>\<open>semver.parse\<close> of the value
  otherwise.
\<close>

definition to_version_specifier :: "yaml \<Rightarrow> VersionSpecifier" where
  "to_version_specifier versionSpecifierOrDirective =
     (case versionSpecifierOrDirective of
        YStr v \<Rightarrow>
          (case List.find (\<lambda>part. enum_value part = v) (map snd IncrementableVersionParts_object) of
             Some part \<Rightarrow> Increment part
           | None \<Rightarrow> Parsed v)
      | _ \<Rightarrow> NotParsed)"

definition released_packages :: "yaml \<Rightarrow> (string \<times> yaml) list \<Rightarrow> (string \<times> VersionSpecifier) list" where
  "released_packages unvalidatedPackages entries =
     fold (\<lambda>packageName obj.
        case get_property unvalidatedPackages packageName of
          Own versionSpecifierOrDirective \<Rightarrow>
            if versionSpecifierOrDirective \<noteq> SKIP_PACKAGE_DIRECTIVE \<and>
               versionSpecifierOrDirective \<noteq> YStr INTENTIONALLY_SKIP_PACKAGE_DIRECTIVE
            then AList.update packageName (to_version_specifier versionSpecifierOrDirective) obj
            else obj
        | _ \<Rightarrow> AList.update packageName NotParsed obj)
       (map fst entries) []"

text \<open>
  \<open>parse\<close> is \<^verbatim>\<open>YAML.parse\<close> (\<open>None\<close> when it throws) and
  \<open>releaseSpecificationContents\<close> is what \<^verbatim>\<open>readFile\<close> returned. \<^verbatim>\<open>isObject\<close> holds of
  a mapping only, and no object inherits a property \<^verbatim>\<open>packages\<close>.
\<close>

definition validateReleaseSpecification ::
  "semver_ops \<Rightarrow> (string \<Rightarrow> yaml option) \<Rightarrow> Project \<Rightarrow> string \<Rightarrow> string
     \<Rightarrow> thrown + ReleaseSpecification" where
  "validateReleaseSpecification L parse project releaseSpecificationPath
       releaseSpecificationContents =
     (let firstUsable = indexOfFirstUsableLine releaseSpecificationContents in
      case parse releaseSpecificationContents of
        None \<Rightarrow> Inl (MalformedDocumentError NotValidYaml)
      | Some (YMap unvalidatedReleaseSpecification) \<Rightarrow>
          (case map_of unvalidatedReleaseSpecification ''packages'' of
             None \<Rightarrow> Inl (MalformedDocumentError NotAnObjectWithPackages)
           | Some unvalidatedPackages \<Rightarrow>
               (case object_entries unvalidatedPackages of
                  Inl e \<Rightarrow> Inl e
                | Inr entries \<Rightarrow>
                    (case forEach_entry L project unvalidatedPackages firstUsable 0 entries [] of
                       Inl e \<Rightarrow> Inl e
                     | Inr errors \<Rightarrow>
                         if length errors > 0 then Inl (ReleaseSpecificationError errors)
                         else Inr \<lparr>packages = released_packages unvalidatedPackages entries,
                                   path = releaseSpecificationPath\<rparr>)))
      | Some _ \<Rightarrow> Inl (MalformedDocumentError NotAnObjectWithPackages))"

text \<open>The callback returns on every entry: the loop runs to its end.\<close>

definition callback_returns ::
  "semver_ops \<Rightarrow> Project \<Rightarrow> yaml \<Rightarrow> int \<Rightarrow> (string \<times> yaml) list \<Rightarrow> bool" where
  "callback_returns L project unvalidatedPackages firstUsable entries =
     list_all (\<lambda>j. case validate_entry L project unvalidatedPackages firstUsable j (entries ! j) of
                      Inl e \<Rightarrow> False
                    | Inr pushed \<Rightarrow> True)
       [0..<length entries]"

subsection \<open>An instance of the semver library\<close>

text \<open>
  Modelled from the spec: \<^verbatim>\<open>./semver\<close> and the \<^verbatim>\<open>semver\<close> package are not among the
  source files. \<open>plain_semver\<close> is the library restricted to plain versions
  \<^verbatim>\<open>MAJOR.MINOR.PATCH\<close> (decimal numbers without leading zeros, no pre-release and no
  build metadata); the examples evaluate the validator with it.
\<close>

definition parse_plain :: "string \<Rightarrow> (nat \<times> nat \<times> nat) option" where
  "parse_plain s =
     (case map numeral_value (split_on (CHR ''.'') s) of
        [Some a, Some b, Some c] \<Rightarrow> Some (a, b, c)
      | _ \<Rightarrow> None)"

fun plain_compare :: "nat \<times> nat \<times> nat \<Rightarrow> nat \<times> nat \<times> nat \<Rightarrow> int" where
  "plain_compare (a, b, c) (a', b', c') =
     (if a \<noteq> a' then (if a < a' then -1 else 1)
      else if b \<noteq> b' then (if b < b' then -1 else 1)
      else if c \<noteq> c' then (if c < c' then -1 else 1)
      else 0)"

fun plain_diff :: "nat \<times> nat \<times> nat \<Rightarrow> nat \<times> nat \<times> nat \<Rightarrow> string option" where
  "plain_diff (a, b, c) (a', b', c') =
     (if a \<noteq> a' then Some ''major''
      else if b \<noteq> b' then Some ''minor''
      else if c \<noteq> c' then Some ''patch''
      else None)"

definition plain_semver :: semver_ops where
  "plain_semver =
     \<lparr>isValidSemver = (\<lambda>s. parse_plain s \<noteq> None),
      compare = (\<lambda>v c. case (parse_plain v, parse_plain c) of
                         (Some x, Some y) \<Rightarrow> plain_compare x y
                       | _ \<Rightarrow> 0),
      diff = (\<lambda>c v. case (parse_plain c, parse_plain v) of
                      (Some x, Some y) \<Rightarrow> plain_diff x y
                    | _ \<Rightarrow> None)\<rparr>"

subsection \<open>An example project\<close>

text \<open>
  A monorepo with three workspace packages at version \<^verbatim>\<open>1.0.0\<close>: \<^verbatim>\<open>a\<close> and
  \<^verbatim>\<open>b\<close> have changes since their latest release and \<^verbatim>\<open>b\<close> depends on
  \<^verbatim>\<open>a\<close>; \<^verbatim>\<open>c\<close> has no changes.
\<close>

definition example_package :: "string \<Rightarrow> (string \<times> string) list \<Rightarrow> bool \<Rightarrow> Package" where
  "example_package n deps changed =
     \<lparr>validatedManifest =
        \<lparr>name = n, version = ''1.0.0'', dependencies = deps, peerDependencies = []\<rparr>,
      hasChangesSinceLatestRelease = changed\<rparr>"

definition example_project :: Project where
  "example_project =
     \<lparr>rootPackage = example_package ''root'' [] False,
      workspacePackages =
        [(''a'', example_package ''a'' [] True),
         (''b'', example_package ''b'' [(''a'', ''^1.0.0'')] True),
         (''c'', example_package ''c'' [] False)]\<rparr>"

text \<open>A project in which no workspace package has changes.\<close>

definition unchanged_project :: Project where
  "unchanged_project =
     \<lparr>rootPackage = example_package ''root'' [] False,
      workspacePackages = [(''a'', example_package ''a'' [] False)]\<rparr>"

text \<open>
  Modelled from the spec: \<^verbatim>\<open>YAML.stringify\<close> belongs to the \<^verbatim>\<open>yaml\<close> package, which is not
  among the source files. \<open>example_stringify\<close> prints an object with one property that
  is a mapping of scalars the way that function does, in block style: the key on a line
  of its own, then one indented line per entry. The examples of the template use it.
\<close>

definition example_stringify :: "yaml \<Rightarrow> string" where
  "example_stringify document =
     (case document of
        YMap [(k, YMap entries)] \<Rightarrow>
          k @ '':'' @ [newline] @
          concat (map (\<lambda>(n, v). ''  '' @ n @ '': '' @ to_string v @ [newline]) entries)
      | _ \<Rightarrow> [])"

subsection \<open>The line numbers as the spec words them\<close>

text \<open>
  The spec counts the leading instructional lines, those beginning with the comment
  marker or consisting only of whitespace, and adds the 1-based position of the entry.
\<close>

definition spec_instructional_line :: "string \<Rightarrow> bool" where
  "spec_instructional_line line =
     ((case line of [] \<Rightarrow> False | c # _ \<Rightarrow> c = CHR ''#'') \<or>
      list_all (\<lambda>c. c = CHR '' '' \<or> c = CHR 0x09) line)"

definition spec_lineNumber :: "string \<Rightarrow> nat \<Rightarrow> int" where
  "spec_lineNumber contents index =
     int (length (takeWhile spec_instructional_line (split_lines contents))) + (int index + 1)"

subsection \<open>Kinds of messages\<close>

fun is_version_error :: "message \<Rightarrow> bool" where
  "is_version_error (AlreadyAtVersion v n) = True"
| "is_version_error (AtGreaterVersion v n c) = True"
| "is_version_error m = False"

fun is_missing_dependents :: "message \<Rightarrow> bool" where
  "is_missing_dependents (MissingDependents n ds) = True"
| "is_missing_dependents m = False"

fun is_missing_dependencies :: "message \<Rightarrow> bool" where
  "is_missing_dependencies (MissingDependencies n ds) = True"
| "is_missing_dependencies m = False"

subsection \<open>The missing packages as the spec words them\<close>

text \<open>
  The spec subtracts the packages that have a non-null entry in the document, where the
  source subtracts those for which the document has a truthy property.
\<close>

definition has_non_null_entry :: "(string \<times> yaml) list \<Rightarrow> string \<Rightarrow> bool" where
  "has_non_null_entry entries n =
     (case map_of entries n of Some v \<Rightarrow> v \<noteq> YNull | None \<Rightarrow> False)"

definition spec_missingDependentNames ::
  "Project \<Rightarrow> (string \<times> yaml) list \<Rightarrow> string \<Rightarrow> string list" where
  "spec_missingDependentNames project entries changedPackageName =
     filter (\<lambda>d. d \<noteq> changedPackageName \<and> \<not> has_non_null_entry entries d)
       (changedDependentNames project changedPackageName)"

definition spec_missingDependencies ::
  "Project \<Rightarrow> (string \<times> yaml) list \<Rightarrow> Package \<Rightarrow> string list" where
  "spec_missingDependencies project entries changedPackage =
     filter (\<lambda>dependency.
        (case map_of (workspacePackages project) dependency of
           None \<Rightarrow> False
         | Some pkg \<Rightarrow> hasChangesSinceLatestRelease pkg) \<and>
        \<not> has_non_null_entry entries dependency)
       (map fst (spread (dependencies (validatedManifest changedPackage))
                        (peerDependencies (validatedManifest changedPackage))))"


section \<open>Properties\<close>

subsection \<open>Property order\<close>

lemma set_own_entries [simp]: "set (own_entries obj) = set obj"
  by (auto simp: own_entries_def)

lemma length_own_entries [simp]: "length (own_entries obj) = length obj"
proof -
  have "length (filter (\<lambda>e. array_index (fst e) \<noteq> None) obj)
        + length (filter (\<lambda>e. array_index (fst e) = None) obj) = length obj"
    using sum_length_filter_compl [of "\<lambda>e. array_index (fst e) \<noteq> None" obj] by simp
  then show ?thesis by (simp add: own_entries_def)
qed

lemma own_entries_no_index:
  "list_all (\<lambda>e. array_index (fst e) = None) obj \<Longrightarrow> own_entries obj = obj"
  by (simp add: own_entries_def list_all_iff filter_empty_conv[THEN iffD2]
      filter_id_conv[THEN iffD2])

lemma distinct_own_entries:
  "distinct (map fst obj) \<Longrightarrow> distinct (map fst (own_entries obj))"
proof -
  assume d: "distinct (map fst obj)"
  let ?P = "\<lambda>e. array_index (fst e) \<noteq> None"
  have d1: "distinct (map fst (filter ?P obj))" and d2: "distinct (map fst (filter (\<lambda>e. \<not> ?P e) obj))"
    using d by (simp_all add: distinct_map_filter)
  have "distinct (map fst (sort_key (\<lambda>e. the (array_index (fst e))) (filter ?P obj)))"
  proof -
    have "inj_on fst (set (filter ?P obj))" and "distinct (filter ?P obj)"
      using d1 by (simp_all add: distinct_map)
    then show ?thesis by (simp add: distinct_map)
  qed
  moreover have "fst ` set (filter ?P obj) \<inter> fst ` set (filter (\<lambda>e. \<not> ?P e) obj) = {}"
    by auto
  ultimately show ?thesis
    using d2 by (auto simp: own_entries_def)
qed

lemma lookup_Own_iff: "lookup obj k = Own v \<longleftrightarrow> map_of obj k = Some v"
  by (auto simp: lookup_def split: option.splits)

lemma lookup_own_key:
  "distinct (map fst obj) \<Longrightarrow> (k, v) \<in> set obj \<Longrightarrow> lookup obj k = Own v"
  by (simp add: lookup_Own_iff)

lemma lookup_not_key:
  "k \<notin> fst ` set obj \<Longrightarrow> lookup obj k = (if k \<in> set Object_prototype then Inherited else Absent)"
  by (simp add: lookup_def map_of_eq_None_iff[THEN iffD2])

lemma lookup_Own_key: "lookup obj k = Own v \<Longrightarrow> k \<in> fst ` set obj"
  by (auto simp: lookup_Own_iff dest: map_of_SomeD intro: rev_image_eqI)

subsection \<open>When the callback throws, and what the loop collects\<close>

lemma check_version_Inl_iff:
  "check_version L changedPackage n v line = Inl e
   \<longleftrightarrow> e = TypeError \<and> (\<forall>pkg. changedPackage \<noteq> Own pkg) \<and> is_valid_semver L v"
  by (cases v; cases changedPackage) (auto simp: check_version_def Let_def)

lemma is_major_bump_Inl_iff:
  "is_major_bump L changedPackage v = Inl e
   \<longleftrightarrow> e = TypeError \<and> (\<forall>pkg. changedPackage \<noteq> Own pkg) \<and> is_valid_semver L v \<and>
       v \<noteq> YStr ''major''"
  by (cases v; cases changedPackage) (auto simp: is_major_bump_def)

lemma check_dependents_Inl_iff:
  "check_dependents L project pk changedPackage n v = Inl e
   \<longleftrightarrow> e = TypeError \<and> (\<forall>pkg. changedPackage \<noteq> Own pkg) \<and> is_valid_semver L v \<and>
       v \<noteq> YStr ''major''"
  using is_major_bump_Inl_iff [of L changedPackage v e]
  by (auto simp: check_dependents_def Let_def split: sum.splits bool.splits)

lemma check_dependencies_Inl_iff:
  "check_dependencies L project pk changedPackage n v = Inl e
   \<longleftrightarrow> e = TypeError \<and> changedPackage = Inherited \<and> truthy v \<and>
       (hasProperty IncrementableVersionParts_object (to_string v) \<or> is_valid_semver L v)"
  by (cases changedPackage) (auto simp: check_dependencies_def Let_def)

text \<open>
  The callback throws exactly when the entry has a valid version and its name is not an
  own key of \<^verbatim>\<open>workspacePackages\<close>, or when the name is an inherited member and the
  directive is truthy and converts to a key of the enum.
\<close>

lemma validate_entry_Inl_iff:
  "validate_entry L project pk f i (n, v) = Inl e
   \<longleftrightarrow> e = TypeError \<and>
       ((\<forall>pkg. lookup (workspacePackages project) n \<noteq> Own pkg) \<and> is_valid_semver L v \<or>
        lookup (workspacePackages project) n = Inherited \<and> truthy v \<and>
        hasProperty IncrementableVersionParts_object (to_string v))"
proof -
  let ?cp = "lookup (workspacePackages project) n"
  have "validate_entry L project pk f i (n, v) = Inl e \<longleftrightarrow>
      check_version L ?cp n v (lineNumber_of f i) = Inl e \<or>
      check_dependents L project pk ?cp n v = Inl e \<or>
      check_dependencies L project pk ?cp n v = Inl e"
  proof (cases "check_version L ?cp n v (lineNumber_of f i)")
    case (Inl e1)
    then have "e1 = TypeError" by (simp add: check_version_Inl_iff)
    with Inl show ?thesis
      by (auto simp: validate_entry_def Let_def check_dependents_Inl_iff check_dependencies_Inl_iff)
  next
    case ve: (Inr versionErrors)
    show ?thesis
    proof (cases "check_dependents L project pk ?cp n v")
      case (Inl e2)
      then have "e2 = TypeError" by (simp add: check_dependents_Inl_iff)
      with Inl ve show ?thesis
        by (auto simp: validate_entry_def Let_def check_dependencies_Inl_iff)
    next
      case de: (Inr dependentErrors)
      show ?thesis
        using ve de by (auto simp: validate_entry_def Let_def split: sum.splits)
    qed
  qed
  then show ?thesis
    by (auto simp: check_version_Inl_iff check_dependents_Inl_iff check_dependencies_Inl_iff)
qed

lemma validate_entry_returns:
  assumes "(\<exists>pkg. lookup (workspacePackages project) n = Own pkg) \<or>
           \<not> is_valid_semver L v \<and>
           (lookup (workspacePackages project) n = Absent \<or> \<not> truthy v \<or>
            \<not> hasProperty IncrementableVersionParts_object (to_string v))"
  shows "\<exists>pushed. validate_entry L project pk f i (n, v) = Inr pushed"
proof (cases "validate_entry L project pk f i (n, v)")
  case (Inl e)
  then show ?thesis using assms validate_entry_Inl_iff [of L project pk f i n v e] by auto
next
  case (Inr pushed)
  then show ?thesis by blast
qed

lemma validate_entry_Inr:
  assumes "validate_entry L project pk f i (n, v) = Inr pushed"
  obtains versionErrors dependentErrors dependencyErrors where
    "check_version L (lookup (workspacePackages project) n) n v (lineNumber_of f i) = Inr versionErrors"
    "check_dependents L project pk (lookup (workspacePackages project) n) n v = Inr dependentErrors"
    "check_dependencies L project pk (lookup (workspacePackages project) n) n v = Inr dependencyErrors"
    "pushed = check_package_exists (lookup (workspacePackages project) n) n (lineNumber_of f i)
              @ check_specifier L n v (lineNumber_of f i)
              @ versionErrors @ dependentErrors @ dependencyErrors"
  using assms by (auto simp: validate_entry_def Let_def split: sum.splits)

lemma validate_entry_Inl_TypeError:
  "validate_entry L project pk f i entry = Inl e \<Longrightarrow> e = TypeError"
  using validate_entry_Inl_iff [of L project pk f i "fst entry" "snd entry" e] by simp

lemma forEach_entry_Inl_iff:
  "forEach_entry L project pk f i es errors = Inl e
   \<longleftrightarrow> (\<exists>j < length es. validate_entry L project pk f (i + j) (es ! j) = Inl e)"
proof (induction es arbitrary: i errors)
  case Nil
  then show ?case by simp
next
  case (Cons entry es)
  show ?case
  proof (cases "validate_entry L project pk f i entry")
    case (Inl e')
    then have e': "e' = TypeError" by (rule validate_entry_Inl_TypeError)
    show ?thesis
    proof
      assume "forEach_entry L project pk f i (entry # es) errors = Inl e"
      with Inl have "validate_entry L project pk f (i + 0) ((entry # es) ! 0) = Inl e" by simp
      then show "\<exists>j<length (entry # es). validate_entry L project pk f (i + j) ((entry # es) ! j) = Inl e"
        by blast
    next
      assume "\<exists>j<length (entry # es). validate_entry L project pk f (i + j) ((entry # es) ! j) = Inl e"
      then obtain j where "validate_entry L project pk f (i + j) ((entry # es) ! j) = Inl e" by blast
      then have "e = TypeError" by (rule validate_entry_Inl_TypeError)
      with e' Inl show "forEach_entry L project pk f i (entry # es) errors = Inl e"
        by simp
    qed
  next
    case (Inr pushed)
    have "(\<exists>j<length (entry # es). validate_entry L project pk f (i + j) ((entry # es) ! j) = Inl e)
        \<longleftrightarrow> (\<exists>j<length es. validate_entry L project pk f (Suc i + j) (es ! j) = Inl e)"
    proof
      assume "\<exists>j<length (entry # es). validate_entry L project pk f (i + j) ((entry # es) ! j) = Inl e"
      then obtain j where j: "j < length (entry # es)"
        "validate_entry L project pk f (i + j) ((entry # es) ! j) = Inl e" by blast
      with Inr obtain j' where "j = Suc j'" by (cases j) auto
      with j show "\<exists>j<length es. validate_entry L project pk f (Suc i + j) (es ! j) = Inl e"
        by auto
    next
      assume "\<exists>j<length es. validate_entry L project pk f (Suc i + j) (es ! j) = Inl e"
      then obtain j where "j < length es" "validate_entry L project pk f (Suc i + j) (es ! j) = Inl e"
        by blast
      then have "Suc j < length (entry # es)"
        "validate_entry L project pk f (i + Suc j) ((entry # es) ! Suc j) = Inl e" by simp_all
      then show "\<exists>j<length (entry # es). validate_entry L project pk f (i + j) ((entry # es) ! j) = Inl e"
        by blast
    qed
    with Inr Cons.IH [of "Suc i" "errors @ pushed"] show ?thesis by simp
  qed
qed

lemma forEach_entry_Inl_TypeError:
  "forEach_entry L project pk f i es errors = Inl e \<Longrightarrow> e = TypeError"
  using forEach_entry_Inl_iff validate_entry_Inl_TypeError by blast

lemma forEach_entry_segment:
  "forEach_entry L project pk f i es errors = Inr out \<Longrightarrow> k < length es \<Longrightarrow>
   \<exists>before pushed after.
     validate_entry L project pk f (i + k) (es ! k) = Inr pushed \<and> out = before @ pushed @ after"
proof (induction es arbitrary: i errors k)
  case Nil
  then show ?case by simp
next
  case (Cons entry es)
  from Cons.prems(1) obtain pushed where
    pushed: "validate_entry L project pk f i entry = Inr pushed"
    and rest: "forEach_entry L project pk f (Suc i) es (errors @ pushed) = Inr out"
    by (auto split: sum.splits)
  show ?case
  proof (cases k)
    case 0
    have "\<exists>after. out = (errors @ pushed) @ after"
      using rest
    proof (induction es arbitrary: i errors pushed)
      case Nil
      then show ?case by simp
    next
      case (Cons a es)
      then show ?case by (auto split: sum.splits) (metis append.assoc)
    qed
    then show ?thesis using 0 pushed by auto
  next
    case (Suc k')
    then have "k' < length es" using Cons.prems(2) by simp
    from Cons.IH [OF rest this] show ?thesis using Suc by simp
  qed
qed

lemma forEach_entry_concat:
  "forEach_entry L project pk f i es errors = Inr out \<Longrightarrow>
   out = errors @ concat (map (\<lambda>k. projr (validate_entry L project pk f (i + k) (es ! k))) [0..<length es])"
proof (induction es arbitrary: i errors)
  case Nil
  then show ?case by simp
next
  case (Cons entry es)
  from Cons.prems(1) obtain pushed where
    pushed: "validate_entry L project pk f i entry = Inr pushed"
    and rest: "forEach_entry L project pk f (Suc i) es (errors @ pushed) = Inr out"
    by (auto split: sum.splits)
  have "[0..<length (entry # es)] = 0 # map Suc [0..<length es]"
    by (simp add: upt_conv_Cons map_Suc_upt del: upt_Suc)
  then show ?case
    using Cons.IH [OF rest] pushed by (simp add: comp_def del: upt_Suc)
qed

lemma callback_returns_iff:
  "callback_returns L project pk f es \<longleftrightarrow>
   (\<forall>j < length es. \<exists>pushed. validate_entry L project pk f j (es ! j) = Inr pushed)"
proof -
  have "(case x of Inl e \<Rightarrow> False | Inr pushed \<Rightarrow> True) \<longleftrightarrow> (\<exists>pushed. x = Inr pushed)"
    for x :: "thrown + validation_error list"
    by (cases x) simp_all
  then show ?thesis by (auto simp: callback_returns_def list_all_iff)
qed

lemma forEach_entry_returns_iff:
  "(\<exists>out. forEach_entry L project pk f 0 es [] = Inr out) \<longleftrightarrow> callback_returns L project pk f es"
proof
  assume "\<exists>out. forEach_entry L project pk f 0 es [] = Inr out"
  then obtain out where out: "forEach_entry L project pk f 0 es [] = Inr out" by blast
  show "callback_returns L project pk f es"
    unfolding callback_returns_iff
  proof (intro allI impI)
    fix j assume "j < length es"
    from forEach_entry_segment [OF out this]
    show "\<exists>pushed. validate_entry L project pk f j (es ! j) = Inr pushed" by auto
  qed
next
  assume r: "callback_returns L project pk f es"
  show "\<exists>out. forEach_entry L project pk f 0 es [] = Inr out"
  proof (cases "forEach_entry L project pk f 0 es []")
    case (Inl e)
    then obtain j where "j < length es" "validate_entry L project pk f (0 + j) (es ! j) = Inl e"
      using forEach_entry_Inl_iff by blast
    with r show ?thesis by (auto simp: callback_returns_iff)
  next
    case (Inr out)
    then show ?thesis by blast
  qed
qed

text \<open>
  What the validator returns for a document whose \<^verbatim>\<open>packages\<close> is a mapping: the
  \<^verbatim>\<open>TypeError\<close> when the callback throws on some entry; otherwise the error that holds
  the errors of all entries, or the release specification when there is none.
\<close>

lemma validate_mapping:
  assumes "parse contents = Some (YMap d)" and "map_of d ''packages'' = Some (YMap es)"
  shows "validateReleaseSpecification L parse project p contents =
     (if callback_returns L project (YMap es) (indexOfFirstUsableLine contents) (own_entries es)
      then (let errors = concat (map (\<lambda>j. projr (validate_entry L project (YMap es)
                                    (indexOfFirstUsableLine contents) j (own_entries es ! j)))
                                  [0..<length es])
            in if errors = []
               then Inr \<lparr>packages = released_packages (YMap es) (own_entries es), path = p\<rparr>
               else Inl (ReleaseSpecificationError errors))
      else Inl TypeError)"
proof (cases "forEach_entry L project (YMap es) (indexOfFirstUsableLine contents) 0 (own_entries es) []")
  case (Inl e)
  then have "e = TypeError" by (rule forEach_entry_Inl_TypeError)
  moreover have "\<not> callback_returns L project (YMap es) (indexOfFirstUsableLine contents) (own_entries es)"
    using Inl forEach_entry_returns_iff [of L project "YMap es" "indexOfFirstUsableLine contents" "own_entries es"]
    by simp
  ultimately show ?thesis
    using assms Inl by (simp add: validateReleaseSpecification_def)
next
  case (Inr out)
  then have "callback_returns L project (YMap es) (indexOfFirstUsableLine contents) (own_entries es)"
    using forEach_entry_returns_iff [of L project "YMap es" "indexOfFirstUsableLine contents" "own_entries es"]
    by blast
  moreover have "out = concat (map (\<lambda>j. projr (validate_entry L project (YMap es)
                                    (indexOfFirstUsableLine contents) j (own_entries es ! j)))
                                  [0..<length es])"
    using forEach_entry_concat [OF Inr] by simp
  ultimately show ?thesis
    using assms Inr by (simp add: validateReleaseSpecification_def Let_def)
qed

lemma entry_reported:
  assumes doc: "parse contents = Some (YMap d)" "map_of d ''packages'' = Some (YMap es)"
    and k: "k < length es"
    and pushed: "validate_entry L project (YMap es) (indexOfFirstUsableLine contents) k
                   (own_entries es ! k) = Inr pushed"
  shows "\<exists>before after.
           validateReleaseSpecification L parse project p contents =
             (if callback_returns L project (YMap es) (indexOfFirstUsableLine contents) (own_entries es)
              then (if before @ pushed @ after = []
                    then Inr \<lparr>packages = released_packages (YMap es) (own_entries es), path = p\<rparr>
                    else Inl (ReleaseSpecificationError (before @ pushed @ after)))
              else Inl TypeError)"
proof (cases "forEach_entry L project (YMap es) (indexOfFirstUsableLine contents) 0 (own_entries es) []")
  case (Inl e)
  then have "e = TypeError" by (rule forEach_entry_Inl_TypeError)
  moreover have "\<not> callback_returns L project (YMap es) (indexOfFirstUsableLine contents) (own_entries es)"
    using Inl forEach_entry_returns_iff [of L project "YMap es" "indexOfFirstUsableLine contents" "own_entries es"]
    by simp
  ultimately show ?thesis
    using doc Inl by (simp add: validateReleaseSpecification_def)
next
  case (Inr out)
  then have r: "callback_returns L project (YMap es) (indexOfFirstUsableLine contents) (own_entries es)"
    using forEach_entry_returns_iff [of L project "YMap es" "indexOfFirstUsableLine contents" "own_entries es"]
    by blast
  have "k < length (own_entries es)" using k by simp
  from forEach_entry_segment [OF Inr this] pushed obtain before after
    where out: "out = before @ pushed @ after" by auto
  have "validateReleaseSpecification L parse project p contents =
          (if out = []
           then Inr \<lparr>packages = released_packages (YMap es) (own_entries es), path = p\<rparr>
           else Inl (ReleaseSpecificationError out))"
    using doc Inr by (simp add: validateReleaseSpecification_def)
  with r out show ?thesis by auto
qed

subsection \<open>The errors pushed for one entry\<close>

lemma filter_check_package_exists [simp]:
  "filter (\<lambda>e. is_version_error (message e)) (check_package_exists cp n line) = []"
  "filter (\<lambda>e. is_missing_dependents (message e)) (check_package_exists cp n line) = []"
  "filter (\<lambda>e. is_missing_dependencies (message e)) (check_package_exists cp n line) = []"
  by (simp_all add: check_package_exists_def)

lemma filter_check_specifier [simp]:
  "filter (\<lambda>e. is_version_error (message e)) (check_specifier L n v line) = []"
  "filter (\<lambda>e. is_missing_dependents (message e)) (check_specifier L n v line) = []"
  "filter (\<lambda>e. is_missing_dependencies (message e)) (check_specifier L n v line) = []"
  by (simp_all add: check_specifier_def)

lemma filter_check_version:
  "check_version L cp n v line = Inr errs \<Longrightarrow>
     filter (\<lambda>e. is_missing_dependents (message e)) errs = [] \<and>
     filter (\<lambda>e. is_missing_dependencies (message e)) errs = []"
  by (auto simp: check_version_def Let_def split: yaml.splits property.splits if_splits)

lemma filter_check_dependents:
  "check_dependents L project pk cp n v = Inr errs \<Longrightarrow>
     filter (\<lambda>e. is_version_error (message e)) errs = [] \<and>
     filter (\<lambda>e. is_missing_dependencies (message e)) errs = []"
  by (auto simp: check_dependents_def Let_def split: sum.splits bool.splits if_splits)

lemma filter_check_dependencies:
  "check_dependencies L project pk cp n v = Inr errs \<Longrightarrow>
     filter (\<lambda>e. is_version_error (message e)) errs = [] \<and>
     filter (\<lambda>e. is_missing_dependents (message e)) errs = []"
  by (auto simp: check_dependencies_def Let_def split: property.splits if_splits)

lemma falsy_iff:
  "\<not> truthy v \<longleftrightarrow> v \<in> {YNull, YBool False, YNum ''0'', YNum ''NaN'', YStr []}"
  by (cases v) auto

lemma enum_key_iff:
  "hasProperty IncrementableVersionParts_object k \<longleftrightarrow> k \<in> {''major'', ''minor'', ''patch''}"
  by (auto simp: hasProperty_def IncrementableVersionParts_object_def)

lemma version_errors_pushed:
  assumes known: "map_of (workspacePackages project) n = Some pkg"
    and valid: "isValidSemver L v"
  shows "\<exists>pushed. validate_entry L project pk f i (n, YStr v) = Inr pushed \<and>
     filter (\<lambda>e. is_version_error (message e)) pushed =
       (if compare L v (version (validatedManifest pkg)) = 0
        then [\<lparr>message = AlreadyAtVersion v n, lineNumber = Some (lineNumber_of f i)\<rparr>]
        else if compare L v (version (validatedManifest pkg)) < 0
        then [\<lparr>message = AtGreaterVersion v n (version (validatedManifest pkg)),
               lineNumber = Some (lineNumber_of f i)\<rparr>]
        else [])"
proof -
  have own: "lookup (workspacePackages project) n = Own pkg"
    using known by (simp add: lookup_Own_iff)
  from validate_entry_returns [of project n L "YStr v" pk f i] own
  obtain pushed where pushed: "validate_entry L project pk f i (n, YStr v) = Inr pushed" by auto
  from validate_entry_Inr [OF pushed] obtain versionErrors dependentErrors dependencyErrors where
    ve: "check_version L (lookup (workspacePackages project) n) n (YStr v) (lineNumber_of f i) = Inr versionErrors"
    and de: "check_dependents L project pk (lookup (workspacePackages project) n) n (YStr v) = Inr dependentErrors"
    and dc: "check_dependencies L project pk (lookup (workspacePackages project) n) n (YStr v) = Inr dependencyErrors"
    and eq: "pushed = check_package_exists (lookup (workspacePackages project) n) n (lineNumber_of f i)
              @ check_specifier L n (YStr v) (lineNumber_of f i)
              @ versionErrors @ dependentErrors @ dependencyErrors"
    by blast
  have "versionErrors =
       (if compare L v (version (validatedManifest pkg)) = 0
        then [\<lparr>message = AlreadyAtVersion v n, lineNumber = Some (lineNumber_of f i)\<rparr>]
        else if compare L v (version (validatedManifest pkg)) < 0
        then [\<lparr>message = AtGreaterVersion v n (version (validatedManifest pkg)),
               lineNumber = Some (lineNumber_of f i)\<rparr>]
        else [])"
    using ve own valid by (auto simp: check_version_def Let_def split: if_splits)
  then have "filter (\<lambda>e. is_version_error (message e)) versionErrors =
       (if compare L v (version (validatedManifest pkg)) = 0
        then [\<lparr>message = AlreadyAtVersion v n, lineNumber = Some (lineNumber_of f i)\<rparr>]
        else if compare L v (version (validatedManifest pkg)) < 0
        then [\<lparr>message = AtGreaterVersion v n (version (validatedManifest pkg)),
               lineNumber = Some (lineNumber_of f i)\<rparr>]
        else [])"
    by simp
  then show ?thesis
    using pushed filter_check_dependents [OF de] filter_check_dependencies [OF dc] by (simp add: eq)
qed

lemma dependents_pushed:
  assumes trigger: "v = ''major'' \<or>
      (\<exists>pkg. map_of (workspacePackages project) n = Some pkg \<and> isValidSemver L v \<and>
             diff L (version (validatedManifest pkg)) v = Some ''major'')"
    and keyword: "\<not> isValidSemver L ''major''"
    and not_inherited: "n \<notin> set Object_prototype"
  shows "\<exists>pushed. validate_entry L project pk f i (n, YStr v) = Inr pushed \<and>
     filter (\<lambda>e. is_missing_dependents (message e)) pushed =
       (if missingDependentNames project pk n = [] then []
        else [\<lparr>message = MissingDependents n (missingDependentNames project pk n),
               lineNumber = None\<rparr>])"
proof -
  have "lookup (workspacePackages project) n \<noteq> Inherited"
    using not_inherited by (simp add: lookup_def split: option.splits)
  moreover have "(\<exists>pkg. lookup (workspacePackages project) n = Own pkg) \<or> \<not> isValidSemver L v"
    using trigger keyword by (auto simp: lookup_Own_iff)
  ultimately have "(\<exists>pkg. lookup (workspacePackages project) n = Own pkg) \<or>
           \<not> is_valid_semver L (YStr v) \<and>
           (lookup (workspacePackages project) n = Absent \<or> \<not> truthy (YStr v) \<or>
            \<not> hasProperty IncrementableVersionParts_object (to_string (YStr v)))"
    by (cases "lookup (workspacePackages project) n") auto
  from validate_entry_returns [OF this, of pk f i]
  obtain pushed where pushed: "validate_entry L project pk f i (n, YStr v) = Inr pushed" by auto
  from validate_entry_Inr [OF pushed] obtain versionErrors dependentErrors dependencyErrors where
    ve: "check_version L (lookup (workspacePackages project) n) n (YStr v) (lineNumber_of f i) = Inr versionErrors"
    and de: "check_dependents L project pk (lookup (workspacePackages project) n) n (YStr v) = Inr dependentErrors"
    and dc: "check_dependencies L project pk (lookup (workspacePackages project) n) n (YStr v) = Inr dependencyErrors"
    and eq: "pushed = check_package_exists (lookup (workspacePackages project) n) n (lineNumber_of f i)
              @ check_specifier L n (YStr v) (lineNumber_of f i)
              @ versionErrors @ dependentErrors @ dependencyErrors"
    by blast
  have "is_major_bump L (lookup (workspacePackages project) n) (YStr v) = Inr True"
    using trigger by (auto simp: is_major_bump_def lookup_Own_iff[THEN iffD2])
  then have "dependentErrors =
       (if missingDependentNames project pk n = [] then []
        else [\<lparr>message = MissingDependents n (missingDependentNames project pk n),
               lineNumber = None\<rparr>])"
    using de by (auto simp: check_dependents_def Let_def)
  then have "filter (\<lambda>e. is_missing_dependents (message e)) dependentErrors =
       (if missingDependentNames project pk n = [] then []
        else [\<lparr>message = MissingDependents n (missingDependentNames project pk n),
               lineNumber = None\<rparr>])"
    by simp
  then show ?thesis
    using pushed filter_check_version [OF ve] filter_check_dependencies [OF dc] by (simp add: eq)
qed

subsection \<open>The missing packages\<close>

lemma keys_spread: "set (map fst (spread a b)) = set (map fst a) \<union> set (map fst b)"
proof -
  have "fst ` set (fold (\<lambda>(k, v) obj. AList.update k v obj) b a) = fst ` set a \<union> fst ` set b"
  proof (induction b arbitrary: a)
    case Nil
    then show ?case by simp
  next
    case (Cons x b)
    obtain k v where x: "x = (k, v)" by (cases x)
    have "fst ` set (AList.update k v a) = insert k (fst ` set a)"
      by (simp add: AList.dom_update)
    with Cons.IH [of "AList.update k v a"] show ?case
      by (simp add: x)
  qed
  then show ?thesis by (simp add: spread_def)
qed

lemma lookup_no_prototype:
  "k \<notin> set Object_prototype \<Longrightarrow>
   lookup obj k = (case map_of obj k of Some v \<Rightarrow> Own v | None \<Rightarrow> Absent)"
  by (simp add: lookup_def)

lemma falsy_lookup:
  "k \<notin> set Object_prototype \<Longrightarrow>
   \<not> truthy_property (lookup obj k) \<longleftrightarrow>
   map_of obj k \<in> {None, Some YNull, Some (YBool False), Some (YNum ''0''), Some (YNum ''NaN''),
                   Some (YStr [])}"
  using falsy_iff by (auto simp: lookup_no_prototype split: option.splits)

lemma lookup_case_Own:
  "(case lookup obj k of Own p \<Rightarrow> P p | _ \<Rightarrow> False) \<longleftrightarrow> (\<exists>p. map_of obj k = Some p \<and> P p)"
  by (cases "map_of obj k") (auto simp: lookup_def)

lemma set_missingDependentNames:
  assumes "\<forall>d \<in> fst ` set (workspacePackages project). d \<notin> set Object_prototype"
  shows "set (missingDependentNames project (YMap es) n) =
     {d. (\<exists>dp. map_of (workspacePackages project) d = Some dp \<and>
               (n \<in> set (map fst (dependencies (validatedManifest dp))) \<or>
                n \<in> set (map fst (peerDependencies (validatedManifest dp)))) \<and>
               hasChangesSinceLatestRelease dp) \<and>
         map_of es d \<in> {None, Some YNull, Some (YBool False), Some (YNum ''0''),
                         Some (YNum ''NaN''), Some (YStr [])}}"
proof -
  have "d \<in> set (missingDependentNames project (YMap es) n) \<longleftrightarrow>
       (\<exists>dp. map_of (workspacePackages project) d = Some dp \<and>
               (n \<in> set (map fst (dependencies (validatedManifest dp))) \<or>
                n \<in> set (map fst (peerDependencies (validatedManifest dp)))) \<and>
               hasChangesSinceLatestRelease dp) \<and>
       \<not> truthy_property (lookup es d)" for d
    by (auto simp: missingDependentNames_def changedDependentNames_def dependentNames_def
        hasProperty_def lookup_case_Own dest: map_of_SomeD intro: rev_image_eqI)
  moreover have "\<not> truthy_property (lookup es d) \<longleftrightarrow>
       map_of es d \<in> {None, Some YNull, Some (YBool False), Some (YNum ''0''),
                       Some (YNum ''NaN''), Some (YStr [])}"
    if "map_of (workspacePackages project) d = Some dp" for d dp
  proof -
    have "d \<in> fst ` set (workspacePackages project)"
      using that by (auto dest: map_of_SomeD intro: rev_image_eqI)
    with assms have "d \<notin> set Object_prototype" by blast
    then show ?thesis by (rule falsy_lookup)
  qed
  ultimately show ?thesis by blast
qed

lemma set_missingDependencies:
  assumes "\<forall>d \<in> fst ` set (workspacePackages project). d \<notin> set Object_prototype"
  shows "set (missingDependencies project (YMap es) pkg) =
     {d. (d \<in> set (map fst (dependencies (validatedManifest pkg))) \<or>
          d \<in> set (map fst (peerDependencies (validatedManifest pkg)))) \<and>
         (\<exists>dp. map_of (workspacePackages project) d = Some dp \<and>
               hasChangesSinceLatestRelease dp) \<and>
         map_of es d \<in> {None, Some YNull, Some (YBool False), Some (YNum ''0''),
                         Some (YNum ''NaN''), Some (YStr [])}}"
proof -
  have "d \<in> set (missingDependencies project (YMap es) pkg) \<longleftrightarrow>
       (d \<in> set (map fst (dependencies (validatedManifest pkg))) \<or>
        d \<in> set (map fst (peerDependencies (validatedManifest pkg)))) \<and>
       (\<exists>dp. map_of (workspacePackages project) d = Some dp \<and> hasChangesSinceLatestRelease dp) \<and>
       \<not> truthy_property (lookup es d)" for d
    using keys_spread [of "dependencies (validatedManifest pkg)" "peerDependencies (validatedManifest pkg)"]
    by (auto simp: missingDependencies_def lookup_case_Own)
  moreover have "\<not> truthy_property (lookup es d) \<longleftrightarrow>
       map_of es d \<in> {None, Some YNull, Some (YBool False), Some (YNum ''0''),
                       Some (YNum ''NaN''), Some (YStr [])}"
    if "map_of (workspacePackages project) d = Some dp" for d dp
  proof -
    have "d \<in> fst ` set (workspacePackages project)"
      using that by (auto dest: map_of_SomeD intro: rev_image_eqI)
    with assms have "d \<notin> set Object_prototype" by blast
    then show ?thesis by (rule falsy_lookup)
  qed
  ultimately show ?thesis by blast
qed

lemmas validator_defs =
  validateReleaseSpecification_def validate_entry_def check_package_exists_def
  check_specifier_def check_version_def is_major_bump_def check_dependents_def
  check_dependencies_def missingDependentNames_def changedDependentNames_def
  dependentNames_def missingDependencies_def spread_def hasProperty_def
  IncrementableVersionParts_object_def SKIP_PACKAGE_DIRECTIVE_def
  INTENTIONALLY_SKIP_PACKAGE_DIRECTIVE_def lineNumber_of_def released_packages_def
  to_version_specifier_def indexOfFirstUsableLine_def findIndex_def split_lines_def
  matches_comment_or_space_def newline_def lookup_def Object_prototype_def
  own_entries_def array_index_def numeral_value_def callback_returns_def indexed_def Let_def

lemmas example_defs =
  example_project_def example_package_def plain_semver_def parse_plain_def

subsection \<open>Facts about the examples\<close>

lemma plain_semver_valid:
  "isValidSemver plain_semver ''1.0.0''" "isValidSemver plain_semver ''2.0.0''"
  "\<not> isValidSemver plain_semver ''major''" "\<not> isValidSemver plain_semver ''minor''"
  "\<not> isValidSemver plain_semver ''bogus''" "\<not> isValidSemver plain_semver ''intentionally-skip''"
  "\<not> isValidSemver plain_semver []"
  by (simp_all add: plain_semver_def parse_plain_def numeral_value_def)

lemma plain_semver_compare:
  "compare plain_semver ''1.0.0'' ''1.0.0'' = 0"
  "compare plain_semver ''2.0.0'' ''1.0.0'' = 1"
  "diff plain_semver ''1.0.0'' ''1.0.0'' = None"
  "diff plain_semver ''1.0.0'' ''2.0.0'' = Some ''major''"
  by (simp_all add: plain_semver_def parse_plain_def numeral_value_def)

lemma example_lookup:
  "map_of (workspacePackages example_project) ''a'' = Some (example_package ''a'' [] True)"
  "map_of (workspacePackages example_project) ''b'' = Some (example_package ''b'' [(''a'', ''^1.0.0'')] True)"
  "map_of (workspacePackages example_project) ''c'' = Some (example_package ''c'' [] False)"
  "map_of (workspacePackages example_project) ''foo'' = None"
  by (simp_all add: example_project_def)

lemma example_names:
  "fst ` set (workspacePackages example_project) \<inter> set Object_prototype = {}"
  "''a'' \<notin> set Object_prototype" "''b'' \<notin> set Object_prototype"
  "''foo'' \<notin> set Object_prototype"
  by (simp_all add: example_project_def Object_prototype_def)

subsection \<open>Explicit versions\<close>

text \<open>
  Claim C6. For an entry of a known package whose directive is a valid version string,
  the callback returns, and the version errors among those it pushes are: the error
  saying that the package is already at that version when the version compares equal to
  the current one; the error saying that the package is at a greater version when it
  compares less; none when it compares greater. The validator reports the errors pushed
  for the entry among those of the other entries, in one \<open>ReleaseSpecificationError\<close>,
  unless the callback throws at another entry.
\<close>

theorem C6_version_comparison:
  assumes doc: "parse contents = Some (YMap d)" "map_of d ''packages'' = Some (YMap es)"
    and k: "k < length es" and entry: "own_entries es ! k = (n, YStr v)"
    and known: "map_of (workspacePackages project) n = Some pkg"
    and valid: "isValidSemver L v"
  shows "\<exists>pushed before after.
     validate_entry L project (YMap es) (indexOfFirstUsableLine contents) k (n, YStr v)
       = Inr pushed \<and>
     filter (\<lambda>e. is_version_error (message e)) pushed =
       (if compare L v (version (validatedManifest pkg)) = 0
        then [\<lparr>message = AlreadyAtVersion v n,
               lineNumber = Some (lineNumber_of (indexOfFirstUsableLine contents) k)\<rparr>]
        else if compare L v (version (validatedManifest pkg)) < 0
        then [\<lparr>message = AtGreaterVersion v n (version (validatedManifest pkg)),
               lineNumber = Some (lineNumber_of (indexOfFirstUsableLine contents) k)\<rparr>]
        else []) \<and>
     validateReleaseSpecification L parse project p contents =
       (if callback_returns L project (YMap es) (indexOfFirstUsableLine contents) (own_entries es)
        then (if before @ pushed @ after = []
              then Inr \<lparr>packages = released_packages (YMap es) (own_entries es), path = p\<rparr>
              else Inl (ReleaseSpecificationError (before @ pushed @ after)))
        else Inl TypeError)"
proof -
  from version_errors_pushed [OF known valid, of "YMap es" "indexOfFirstUsableLine contents" k]
  obtain pushed where
    pushed: "validate_entry L project (YMap es) (indexOfFirstUsableLine contents) k (n, YStr v) = Inr pushed"
    and errs: "filter (\<lambda>e. is_version_error (message e)) pushed =
       (if compare L v (version (validatedManifest pkg)) = 0
        then [\<lparr>message = AlreadyAtVersion v n,
               lineNumber = Some (lineNumber_of (indexOfFirstUsableLine contents) k)\<rparr>]
        else if compare L v (version (validatedManifest pkg)) < 0
        then [\<lparr>message = AtGreaterVersion v n (version (validatedManifest pkg)),
               lineNumber = Some (lineNumber_of (indexOfFirstUsableLine contents) k)\<rparr>]
        else [])"
    by blast
  have "validate_entry L project (YMap es) (indexOfFirstUsableLine contents) k (own_entries es ! k)
          = Inr pushed"
    using pushed entry by simp
  from entry_reported [where parse = parse and contents = contents, OF doc k this]
  obtain before after where
    "validateReleaseSpecification L parse project p contents =
       (if callback_returns L project (YMap es) (indexOfFirstUsableLine contents) (own_entries es)
        then (if before @ pushed @ after = []
              then Inr \<lparr>packages = released_packages (YMap es) (own_entries es), path = p\<rparr>
              else Inl (ReleaseSpecificationError (before @ pushed @ after)))
        else Inl TypeError)"
    by blast
  with pushed errs show ?thesis by blast
qed

theorem C6_version_comparison_witness:
  "(0::nat) < length [(''a'', YStr ''1.0.0'')] \<and>
   own_entries [(''a'', YStr ''1.0.0'')] ! 0 = (''a'', YStr ''1.0.0'') \<and>
   map_of (workspacePackages example_project) ''a'' = Some (example_package ''a'' [] True) \<and>
   isValidSemver plain_semver ''1.0.0'' \<and>
   compare plain_semver ''1.0.0'' (version (validatedManifest (example_package ''a'' [] True))) = 0 \<and>
   (\<exists>pushed before after.
      validate_entry plain_semver example_project (YMap [(''a'', YStr ''1.0.0'')])
        (indexOfFirstUsableLine (''packages:'' @ [newline] @ ''  a: 1.0.0'')) 0
        (''a'', YStr ''1.0.0'') = Inr pushed \<and>
      filter (\<lambda>e. is_version_error (message e)) pushed =
        [\<lparr>message = AlreadyAtVersion ''1.0.0'' ''a'', lineNumber = Some 2\<rparr>] \<and>
      validateReleaseSpecification plain_semver
        (\<lambda>contents. Some (YMap [(''packages'', YMap [(''a'', YStr ''1.0.0'')])]))
        example_project ''spec.yml'' (''packages:'' @ [newline] @ ''  a: 1.0.0'')
      = Inl (ReleaseSpecificationError (before @ pushed @ after))) \<and>
   validateReleaseSpecification plain_semver
     (\<lambda>contents. Some (YMap [(''packages'', YMap [(''a'', YStr ''1.0.0'')])]))
     example_project ''spec.yml'' (''packages:'' @ [newline] @ ''  a: 1.0.0'')
   = Inl (ReleaseSpecificationError
        [\<lparr>message = AlreadyAtVersion ''1.0.0'' ''a'', lineNumber = Some 2\<rparr>])"
proof -
  have own: "own_entries [(''a'', YStr ''1.0.0'')] = [(''a'', YStr ''1.0.0'')]"
    by (simp add: own_entries_def array_index_def numeral_value_def)
  have cmp: "compare plain_semver ''1.0.0'' (version (validatedManifest (example_package ''a'' [] True))) = 0"
    by (simp add: example_defs numeral_value_def)
  have run: "validateReleaseSpecification plain_semver
     (\<lambda>contents. Some (YMap [(''packages'', YMap [(''a'', YStr ''1.0.0'')])]))
     example_project ''spec.yml'' (''packages:'' @ [newline] @ ''  a: 1.0.0'')
   = Inl (ReleaseSpecificationError
        [\<lparr>message = AlreadyAtVersion ''1.0.0'' ''a'', lineNumber = Some 2\<rparr>])"
    by (simp add: validator_defs example_defs)
  have line: "lineNumber_of (indexOfFirstUsableLine (''packages:'' @ [newline] @ ''  a: 1.0.0'')) 0 = 2"
    by (simp add: validator_defs)
  from C6_version_comparison [of "\<lambda>contents. Some (YMap [(''packages'', YMap [(''a'', YStr ''1.0.0'')])])"
      "''packages:'' @ [newline] @ ''  a: 1.0.0''" "[(''packages'', YMap [(''a'', YStr ''1.0.0'')])]"
      "[(''a'', YStr ''1.0.0'')]" 0 "''a''" "''1.0.0''" example_project "example_package ''a'' [] True"
      plain_semver "''spec.yml''"]
  obtain pushed before after where
    "validate_entry plain_semver example_project (YMap [(''a'', YStr ''1.0.0'')])
        (indexOfFirstUsableLine (''packages:'' @ [newline] @ ''  a: 1.0.0'')) 0
        (''a'', YStr ''1.0.0'') = Inr pushed"
    "filter (\<lambda>e. is_version_error (message e)) pushed =
        [\<lparr>message = AlreadyAtVersion ''1.0.0'' ''a'', lineNumber = Some 2\<rparr>]"
    "validateReleaseSpecification plain_semver
        (\<lambda>contents. Some (YMap [(''packages'', YMap [(''a'', YStr ''1.0.0'')])]))
        example_project ''spec.yml'' (''packages:'' @ [newline] @ ''  a: 1.0.0'')
      = (if callback_returns plain_semver example_project (YMap [(''a'', YStr ''1.0.0'')])
              (indexOfFirstUsableLine (''packages:'' @ [newline] @ ''  a: 1.0.0''))
              (own_entries [(''a'', YStr ''1.0.0'')])
        then (if before @ pushed @ after = []
              then Inr \<lparr>packages = released_packages (YMap [(''a'', YStr ''1.0.0'')])
                                      (own_entries [(''a'', YStr ''1.0.0'')]), path = ''spec.yml''\<rparr>
              else Inl (ReleaseSpecificationError (before @ pushed @ after)))
        else Inl TypeError)"
    using own cmp line example_lookup(1) plain_semver_valid(1) by auto
  moreover from this(3) run
  have "validateReleaseSpecification plain_semver
        (\<lambda>contents. Some (YMap [(''packages'', YMap [(''a'', YStr ''1.0.0'')])]))
        example_project ''spec.yml'' (''packages:'' @ [newline] @ ''  a: 1.0.0'')
      = Inl (ReleaseSpecificationError (before @ pushed @ after))"
    by (simp split: if_splits)
  ultimately have "\<exists>pushed before after.
      validate_entry plain_semver example_project (YMap [(''a'', YStr ''1.0.0'')])
        (indexOfFirstUsableLine (''packages:'' @ [newline] @ ''  a: 1.0.0'')) 0
        (''a'', YStr ''1.0.0'') = Inr pushed \<and>
      filter (\<lambda>e. is_version_error (message e)) pushed =
        [\<lparr>message = AlreadyAtVersion ''1.0.0'' ''a'', lineNumber = Some 2\<rparr>] \<and>
      validateReleaseSpecification plain_semver
        (\<lambda>contents. Some (YMap [(''packages'', YMap [(''a'', YStr ''1.0.0'')])]))
        example_project ''spec.yml'' (''packages:'' @ [newline] @ ''  a: 1.0.0'')
      = Inl (ReleaseSpecificationError (before @ pushed @ after))"
    by blast
  then show ?thesis
    using own cmp run example_lookup(1) plain_semver_valid(1) by simp
qed

subsection \<open>Aggregation of the errors\<close>

text \<open>
  When the callback throws at no entry, the validator reports the errors of all
  entries, in the order of the entries (lemma \<open>validate_mapping\<close>); a document with three
  problems gets three errors.
\<close>

lemma three_problems_three_errors:
  "validateReleaseSpecification plain_semver
     (\<lambda>contents. Some (YMap [(''packages'',
         YMap [(''foo'', YStr ''minor''), (''c'', YStr ''bogus''), (''a'', YStr ''major'')])]))
     example_project ''spec.yml''
     (''packages:'' @ [newline] @ ''  foo: minor'' @ [newline] @ ''  c: bogus'' @ [newline]
        @ ''  a: major'')
   = Inl (ReleaseSpecificationError
       [\<lparr>message = NotAPackage ''foo'', lineNumber = Some 2\<rparr>,
        \<lparr>message = InvalidVersionSpecifier (YStr ''bogus'') ''c'', lineNumber = Some 3\<rparr>,
        \<lparr>message = MissingDependents ''a'' [''b''], lineNumber = None\<rparr>])"
  by (simp add: validator_defs example_defs)

text \<open>
  Claim C3 says that validation never stops at the first failing entry and reports all
  problems in one error. On a document whose first entry names an unknown package with
  a version as its directive and whose second entry has an invalid directive, the
  validator throws a \<^verbatim>\<open>TypeError\<close> at the first entry and reports neither problem.
\<close>

theorem C3_aggregation_aborted:
  "validateReleaseSpecification plain_semver
     (\<lambda>contents. Some (YMap [(''packages'',
         YMap [(''foo'', YStr ''1.0.0''), (''c'', YStr ''bogus'')])]))
     example_project ''spec.yml''
     (''packages:'' @ [newline] @ ''  foo: 1.0.0'' @ [newline] @ ''  c: bogus'')
   = Inl TypeError"
  by (simp add: validator_defs example_defs)

subsection \<open>Malformed documents\<close>

text \<open>
  The validator rejects a document as malformed exactly when it is not valid YAML, is not
  an object, or has no \<^verbatim>\<open>packages\<close> property.
\<close>

lemma malformed_iff:
  "validateReleaseSpecification L parse project p contents = Inl (MalformedDocumentError m)
   \<longleftrightarrow> (parse contents = None \<and> m = NotValidYaml) \<or>
       ((\<exists>v. parse contents = Some v \<and> (\<forall>d. v = YMap d \<longrightarrow> map_of d ''packages'' = None)) \<and>
        m = NotAnObjectWithPackages)"
proof (cases "parse contents")
  case None
  then show ?thesis by (auto simp: validateReleaseSpecification_def)
next
  case (Some v)
  show ?thesis
  proof (cases "\<exists>d pv. v = YMap d \<and> map_of d ''packages'' = Some pv")
    case False
    with Some show ?thesis
      by (cases v) (auto simp: validateReleaseSpecification_def split: option.splits)
  next
    case True
    then obtain d pv where v: "v = YMap d" and pv: "map_of d ''packages'' = Some pv" by blast
    have "validateReleaseSpecification L parse project p contents \<noteq> Inl (MalformedDocumentError m)"
    proof (cases "object_entries pv")
      case (Inl e)
      then have "e = TypeError" by (cases pv) auto
      with Inl Some v pv show ?thesis
        by (simp add: validateReleaseSpecification_def)
    next
      case (Inr es)
      show ?thesis
      proof (cases "forEach_entry L project pv (indexOfFirstUsableLine contents) 0 es []")
        case (Inl e)
        then have "e = TypeError" by (rule forEach_entry_Inl_TypeError)
        with Inl Inr Some v pv show ?thesis
          by (simp add: validateReleaseSpecification_def)
      next
        case (Inr out)
        with \<open>object_entries pv = Inr es\<close> Some v pv show ?thesis
          by (simp add: validateReleaseSpecification_def)
      qed
    qed
    with Some v pv show ?thesis by auto
  qed
qed

text \<open>
  Claim C5 says that a \<^verbatim>\<open>packages\<close> value that is not a mapping is rejected as a
  malformed document before any entry is validated. The validator does not check it:
  for the number \<^verbatim>\<open>5\<close> it succeeds with an empty release specification, for
  \<^verbatim>\<open>null\<close> it throws a \<^verbatim>\<open>TypeError\<close>, and for the string \<^verbatim>\<open>ab\<close> it validates
  the characters of the string as entries.
\<close>

theorem C5_packages_not_a_mapping:
  "validateReleaseSpecification plain_semver (\<lambda>contents. Some (YMap [(''packages'', YNum ''5'')]))
     example_project ''spec.yml'' ''packages: 5''
   = Inr \<lparr>packages = [], path = ''spec.yml''\<rparr> \<and>
   validateReleaseSpecification plain_semver (\<lambda>contents. Some (YMap [(''packages'', YNull)]))
     example_project ''spec.yml'' ''packages:''
   = Inl TypeError \<and>
   validateReleaseSpecification plain_semver (\<lambda>contents. Some (YMap [(''packages'', YStr ''ab'')]))
     example_project ''spec.yml'' ''packages: ab''
   = Inl (ReleaseSpecificationError
       [\<lparr>message = NotAPackage ''0'', lineNumber = Some 1\<rparr>,
        \<lparr>message = InvalidVersionSpecifier (YStr ''a'') ''0'', lineNumber = Some 1\<rparr>,
        \<lparr>message = NotAPackage ''1'', lineNumber = Some 2\<rparr>,
        \<lparr>message = InvalidVersionSpecifier (YStr ''b'') ''1'', lineNumber = Some 2\<rparr>])"
  by (simp add: validator_defs example_defs)

subsection \<open>The release specification\<close>

lemma to_version_specifier_cases:
  "to_version_specifier v =
     (case v of
        YStr s \<Rightarrow>
          if s = ''major'' then Increment major
          else if s = ''minor'' then Increment minor
          else if s = ''patch'' then Increment patch
          else Parsed s
      | _ \<Rightarrow> NotParsed)"
  by (cases v) (simp_all add: to_version_specifier_def IncrementableVersionParts_object_def)

lemma bump_kind_truthy: "to_string v \<in> {''major'', ''minor'', ''patch''} \<Longrightarrow> truthy v"
proof (cases v)
  case YNull
  assume "to_string v \<in> {''major'', ''minor'', ''patch''}"
  with YNull show ?thesis by simp
next
  case (YBool b)
  assume "to_string v \<in> {''major'', ''minor'', ''patch''}"
  with YBool show ?thesis by (cases b) simp_all
next
  case (YNum s)
  assume "to_string v \<in> {''major'', ''minor'', ''patch''}"
  with YNum show ?thesis by auto
next
  case (YStr s)
  assume "to_string v \<in> {''major'', ''minor'', ''patch''}"
  with YStr show ?thesis by auto
next
  case (YSeq xs)
  then show ?thesis by simp
next
  case (YMap m)
  then show ?thesis by simp
qed

lemma validate_entry_no_errors:
  assumes none: "validate_entry L project pk f j (n, v) = Inr []"
    and released: "v \<noteq> YNull" "v \<noteq> YStr ''intentionally-skip''"
  shows "\<exists>pkg. map_of (workspacePackages project) n = Some pkg \<and>
           (case v of
              YStr s \<Rightarrow> s \<in> {''major'', ''minor'', ''patch''} \<or>
                        isValidSemver L s \<and> 0 < compare L s (version (validatedManifest pkg))
            | _ \<Rightarrow> to_string v \<in> {''major'', ''minor'', ''patch''})"
proof -
  from validate_entry_Inr [OF none] obtain versionErrors dependentErrors dependencyErrors where
    ve: "check_version L (lookup (workspacePackages project) n) n v (lineNumber_of f j) = Inr versionErrors"
    and eq: "[] = check_package_exists (lookup (workspacePackages project) n) n (lineNumber_of f j)
              @ check_specifier L n v (lineNumber_of f j)
              @ versionErrors @ dependentErrors @ dependencyErrors"
    by blast
  from eq have "check_package_exists (lookup (workspacePackages project) n) n (lineNumber_of f j) = []"
    by simp
  then have present: "lookup (workspacePackages project) n \<noteq> Absent"
    by (auto simp: check_package_exists_def split: if_splits)
  from eq have "check_specifier L n v (lineNumber_of f j) = []" by simp
  then have directive: "to_string v \<in> {''major'', ''minor'', ''patch''} \<or> is_valid_semver L v"
    using released
    by (auto simp: check_specifier_def enum_key_iff SKIP_PACKAGE_DIRECTIVE_def
        INTENTIONALLY_SKIP_PACKAGE_DIRECTIVE_def split: if_splits)
  have "validate_entry L project pk f j (n, v) \<noteq> Inl TypeError" using none by simp
  then have returns: "\<not> ((\<forall>pkg. lookup (workspacePackages project) n \<noteq> Own pkg) \<and> is_valid_semver L v)"
    "\<not> (lookup (workspacePackages project) n = Inherited \<and> truthy v \<and>
        hasProperty IncrementableVersionParts_object (to_string v))"
    using validate_entry_Inl_iff [of L project pk f j n v TypeError] by simp_all
  have "lookup (workspacePackages project) n \<noteq> Inherited"
  proof
    assume inherited: "lookup (workspacePackages project) n = Inherited"
    with returns(1) have "\<not> is_valid_semver L v" by simp
    with directive have kind: "to_string v \<in> {''major'', ''minor'', ''patch''}" by simp
    then have "truthy v" by (rule bump_kind_truthy)
    with returns(2) inherited kind show False by (simp add: enum_key_iff)
  qed
  with present obtain pkg where own: "lookup (workspacePackages project) n = Own pkg"
    by (cases "lookup (workspacePackages project) n") auto
  then have known: "map_of (workspacePackages project) n = Some pkg"
    by (simp add: lookup_Own_iff)
  from eq have "versionErrors = []" by simp
  then have greater: "isValidSemver L s \<longrightarrow> 0 < compare L s (version (validatedManifest pkg))"
    if "v = YStr s" for s
    using ve own that by (auto simp: check_version_def Let_def split: if_splits)
  have "case v of
          YStr s \<Rightarrow> s \<in> {''major'', ''minor'', ''patch''} \<or>
                    isValidSemver L s \<and> 0 < compare L s (version (validatedManifest pkg))
        | _ \<Rightarrow> to_string v \<in> {''major'', ''minor'', ''patch''}"
  proof (cases v)
    case (YStr s)
    with directive greater [of s] show ?thesis by auto
  qed (use directive in simp_all)
  with known show ?thesis by blast
qed

lemma set_update_subset: "set (AList.update k v al) \<subseteq> insert (k, v) (set al)"
  by (induction al) auto

lemma released_fold_mem:
  "(n, vs) \<in> set (fold (\<lambda>packageName obj.
        case get_property pk packageName of
          Own versionSpecifierOrDirective \<Rightarrow>
            if versionSpecifierOrDirective \<noteq> SKIP_PACKAGE_DIRECTIVE \<and>
               versionSpecifierOrDirective \<noteq> YStr INTENTIONALLY_SKIP_PACKAGE_DIRECTIVE
            then AList.update packageName (to_version_specifier versionSpecifierOrDirective) obj
            else obj
        | _ \<Rightarrow> AList.update packageName NotParsed obj) ks acc) \<Longrightarrow>
   (n, vs) \<in> set acc \<or>
   (\<exists>v. get_property pk n = Own v \<and> v \<noteq> YNull \<and> v \<noteq> YStr ''intentionally-skip'' \<and>
        vs = to_version_specifier v) \<or>
   (n \<in> set ks \<and> (\<forall>v. get_property pk n \<noteq> Own v))"
proof (induction ks arbitrary: acc)
  case Nil
  then show ?case by simp
next
  case (Cons k ks)
  let ?step = "\<lambda>packageName obj.
        case get_property pk packageName of
          Own versionSpecifierOrDirective \<Rightarrow>
            if versionSpecifierOrDirective \<noteq> SKIP_PACKAGE_DIRECTIVE \<and>
               versionSpecifierOrDirective \<noteq> YStr INTENTIONALLY_SKIP_PACKAGE_DIRECTIVE
            then AList.update packageName (to_version_specifier versionSpecifierOrDirective) obj
            else obj
        | _ \<Rightarrow> AList.update packageName NotParsed obj"
  from Cons.prems have "(n, vs) \<in> set (fold ?step ks (?step k acc))" by simp
  from Cons.IH [OF this] consider
    (acc) "(n, vs) \<in> set (?step k acc)"
    | (own) "\<exists>v. get_property pk n = Own v \<and> v \<noteq> YNull \<and> v \<noteq> YStr ''intentionally-skip'' \<and>
        vs = to_version_specifier v"
    | (other) "n \<in> set ks \<and> (\<forall>v. get_property pk n \<noteq> Own v)"
    by blast
  then show ?case
  proof cases
    case acc
    show ?thesis
    proof (cases "get_property pk k")
      case (Own v)
      show ?thesis
      proof (cases "v \<noteq> YNull \<and> v \<noteq> YStr ''intentionally-skip''")
        case True
        with acc Own have "(n, vs) \<in> set (AList.update k (to_version_specifier v) acc)"
          by (simp add: SKIP_PACKAGE_DIRECTIVE_def INTENTIONALLY_SKIP_PACKAGE_DIRECTIVE_def)
        then have "(n, vs) = (k, to_version_specifier v) \<or> (n, vs) \<in> set acc"
          using set_update_subset [of k "to_version_specifier v" acc] by auto
        with Own True show ?thesis by auto
      next
        case False
        with acc Own show ?thesis
          by (auto simp: SKIP_PACKAGE_DIRECTIVE_def INTENTIONALLY_SKIP_PACKAGE_DIRECTIVE_def)
      qed
    next
      case Absent
      with acc have "(n, vs) \<in> set (AList.update k NotParsed acc)" by simp
      then have "(n, vs) = (k, NotParsed) \<or> (n, vs) \<in> set acc"
        using set_update_subset [of k NotParsed acc] by auto
      with Absent show ?thesis by auto
    next
      case Inherited
      with acc have "(n, vs) \<in> set (AList.update k NotParsed acc)" by simp
      then have "(n, vs) = (k, NotParsed) \<or> (n, vs) \<in> set acc"
        using set_update_subset [of k NotParsed acc] by auto
      with Inherited show ?thesis by auto
    qed
  next
    case own
    then show ?thesis by blast
  next
    case other
    then show ?thesis by simp
  qed
qed

lemma released_packages_mem:
  assumes "(n, vs) \<in> set (released_packages (YMap es) (own_entries es))"
  shows "\<exists>v. map_of es n = Some v \<and> v \<noteq> YNull \<and> v \<noteq> YStr ''intentionally-skip'' \<and>
             vs = to_version_specifier v"
proof -
  from released_fold_mem [OF assms [unfolded released_packages_def]]
  consider "\<exists>v. lookup es n = Own v \<and> v \<noteq> YNull \<and> v \<noteq> YStr ''intentionally-skip'' \<and>
        vs = to_version_specifier v"
    | "n \<in> fst ` set es \<and> (\<forall>v. lookup es n \<noteq> Own v)"
    by auto
  then show ?thesis
  proof cases
    case 1
    then show ?thesis by (simp add: lookup_Own_iff)
  next
    case 2
    then have "map_of es n \<noteq> None" by (simp add: map_of_eq_None_iff)
    with 2 show ?thesis by (auto simp: lookup_Own_iff)
  qed
qed

lemma released_fold_distinct:
  "distinct (map fst acc) \<Longrightarrow>
   distinct (map fst (fold (\<lambda>packageName obj.
        case get_property pk packageName of
          Own versionSpecifierOrDirective \<Rightarrow>
            if versionSpecifierOrDirective \<noteq> SKIP_PACKAGE_DIRECTIVE \<and>
               versionSpecifierOrDirective \<noteq> YStr INTENTIONALLY_SKIP_PACKAGE_DIRECTIVE
            then AList.update packageName (to_version_specifier versionSpecifierOrDirective) obj
            else obj
        | _ \<Rightarrow> AList.update packageName NotParsed obj) ks acc))"
  by (induction ks arbitrary: acc) (auto simp: AList.distinct_update split: property.splits)

lemma released_packages_distinct: "distinct (map fst (released_packages pk entries))"
  unfolding released_packages_def by (rule released_fold_distinct) simp

text \<open>
  What a returned release specification holds, for a document whose \<^verbatim>\<open>packages\<close> is a
  mapping. Every entry of it comes from an entry of the document whose directive is
  neither \<^verbatim>\<open>null\<close> nor \<^verbatim>\<open>intentionally-skip\<close>, and its key is the name of a workspace
  package. When the directive is a string, the value is the member of the enum that it
  names, or the parsed directive, which is then a valid version that compares greater
  than the current version of the package. When the directive is not a string, it is a
  value whose conversion to a property key is a bump kind, and the value is \<^verbatim>\<open>null\<close>.
\<close>

lemma release_specification_entries:
  assumes doc: "parse contents = Some (YMap d)" "map_of d ''packages'' = Some (YMap es)"
    and returned: "validateReleaseSpecification L parse project p contents = Inr spec"
  shows "path spec = p \<and> distinct (map fst (packages spec)) \<and>
    (\<forall>(n, specifier) \<in> set (packages spec).
       \<exists>pkg v. map_of (workspacePackages project) n = Some pkg \<and>
               map_of es n = Some v \<and> v \<noteq> YNull \<and> v \<noteq> YStr ''intentionally-skip'' \<and>
               (case specifier of
                  Increment part \<Rightarrow> v = YStr (enum_value part)
                | Parsed s \<Rightarrow> v = YStr s \<and> isValidSemver L s \<and>
                             0 < compare L s (version (validatedManifest pkg))
                | NotParsed \<Rightarrow> (\<forall>s. v \<noteq> YStr s) \<and>
                               to_string v \<in> {''major'', ''minor'', ''patch''}))"
proof -
  from returned doc have
    none: "forEach_entry L project (YMap es) (indexOfFirstUsableLine contents) 0 (own_entries es) []
             = Inr []"
    and spec: "spec = \<lparr>packages = released_packages (YMap es) (own_entries es), path = p\<rparr>"
    by (auto simp: validateReleaseSpecification_def Let_def split: sum.splits if_splits)
  have "\<exists>pkg v. map_of (workspacePackages project) n = Some pkg \<and>
               map_of es n = Some v \<and> v \<noteq> YNull \<and> v \<noteq> YStr ''intentionally-skip'' \<and>
               (case specifier of
                  Increment part \<Rightarrow> v = YStr (enum_value part)
                | Parsed s \<Rightarrow> v = YStr s \<and> isValidSemver L s \<and>
                             0 < compare L s (version (validatedManifest pkg))
                | NotParsed \<Rightarrow> (\<forall>s. v \<noteq> YStr s) \<and>
                               to_string v \<in> {''major'', ''minor'', ''patch''})"
    if "(n, specifier) \<in> set (released_packages (YMap es) (own_entries es))" for n specifier
  proof -
    from released_packages_mem [OF that] obtain v where
      v: "map_of es n = Some v" "v \<noteq> YNull" "v \<noteq> YStr ''intentionally-skip''"
      "specifier = to_version_specifier v"
      by blast
    from v(1) have "(n, v) \<in> set (own_entries es)" by (simp add: map_of_SomeD)
    then obtain k where k: "k < length (own_entries es)" "own_entries es ! k = (n, v)"
      unfolding in_set_conv_nth by blast
    from forEach_entry_segment [OF none k(1)] k(2)
    have "validate_entry L project (YMap es) (indexOfFirstUsableLine contents) k (n, v) = Inr []"
      by auto
    from validate_entry_no_errors [OF this v(2,3)] obtain pkg where
      known: "map_of (workspacePackages project) n = Some pkg"
      and ok: "case v of
              YStr s \<Rightarrow> s \<in> {''major'', ''minor'', ''patch''} \<or>
                        isValidSemver L s \<and> 0 < compare L s (version (validatedManifest pkg))
            | _ \<Rightarrow> to_string v \<in> {''major'', ''minor'', ''patch''}"
      by blast
    have "case specifier of
            Increment part \<Rightarrow> v = YStr (enum_value part)
          | Parsed s \<Rightarrow> v = YStr s \<and> isValidSemver L s \<and>
                       0 < compare L s (version (validatedManifest pkg))
          | NotParsed \<Rightarrow> (\<forall>s. v \<noteq> YStr s) \<and>
                         to_string v \<in> {''major'', ''minor'', ''patch''}"
      using ok unfolding v(4) to_version_specifier_cases by (cases v) auto
    with known v(1,2,3) show ?thesis by blast
  qed
  then show ?thesis
    using spec released_packages_distinct [of "YMap es" "own_entries es"] by auto
qed

text \<open>
  Claim C7 says that every value of a returned release specification is a member of the
  enum or a parsed version. For the entry \<^verbatim>\<open>a: [major]\<close>, a sequence holding the string
  \<^verbatim>\<open>major\<close>, \<^verbatim>\<open>hasProperty\<close> turns the sequence into the key \<^verbatim>\<open>major\<close>, no error is
  pushed, and the validator returns a release specification in which the value of
  \<^verbatim>\<open>a\<close> is what \<^verbatim>\<open>semver.parse\<close> returns for the sequence: \<^verbatim>\<open>null\<close>. The same happens
  for \<^verbatim>\<open>c\<close>, a package without changes.
\<close>

theorem C7_unparsed_version_specifier:
  "validateReleaseSpecification plain_semver
     (\<lambda>contents. Some (YMap [(''packages'',
         YMap [(''a'', YSeq [YStr ''major'']), (''b'', YStr ''minor'')])]))
     example_project ''spec.yml''
     (''packages:'' @ [newline] @ ''  a: [major]'' @ [newline] @ ''  b: minor'')
   = Inr \<lparr>packages = [(''a'', NotParsed), (''b'', Increment minor)], path = ''spec.yml''\<rparr> \<and>
   validateReleaseSpecification plain_semver
     (\<lambda>contents. Some (YMap [(''packages'', YMap [(''c'', YSeq [YStr ''major''])])]))
     example_project ''spec.yml''
     (''packages:'' @ [newline] @ ''  c: [major]'')
   = Inr \<lparr>packages = [(''c'', NotParsed)], path = ''spec.yml''\<rparr>"
  by (simp add: validator_defs example_defs)

subsection \<open>Missing dependents\<close>

lemma example_missing_dependents:
  "missingDependentNames example_project (YMap [(''a'', YStr ''major'')]) ''a'' = [''b'']"
  by (simp add: validator_defs example_defs)

text \<open>
  Claim C1, as the code has it. The entry is \<open>(n, YStr v)\<close>, where \<open>v\<close> is \<^verbatim>\<open>major\<close>, or
  a valid version whose difference from the current version of the package \<open>n\<close> is
  \<^verbatim>\<open>major\<close>; the semver library accepts neither \<^verbatim>\<open>major\<close> nor the empty string as a
  version, and neither \<open>n\<close> nor the name of a workspace package is the name of a member
  of \<^verbatim>\<open>Object.prototype\<close>. Then the callback returns, and it pushes one error of missing
  dependents if the list \<open>missingDependentNames\<close> is not empty, naming that list, and
  none otherwise. The list holds exactly the other workspace packages that declare \<open>n\<close>
  as a dependency or peer dependency, have changes, and have no truthy entry in the
  document: no entry, or the entry \<^verbatim>\<open>null\<close>, \<^verbatim>\<open>false\<close>, \<^verbatim>\<open>0\<close>, \<^verbatim>\<open>NaN\<close> or the
  empty string. The validator reports the errors pushed for the entry among those of
  the other entries, unless the callback throws at another entry.
\<close>

theorem C1_missing_dependents:
  assumes doc: "parse contents = Some (YMap d)" "map_of d ''packages'' = Some (YMap es)"
    and keys: "distinct (map fst es)"
    and k: "k < length es" and entry: "own_entries es ! k = (n, YStr v)"
    and trigger: "v = ''major'' \<or>
      (\<exists>pkg. map_of (workspacePackages project) n = Some pkg \<and> isValidSemver L v \<and>
             diff L (version (validatedManifest pkg)) v = Some ''major'')"
    and library: "\<not> isValidSemver L ''major''" "\<not> isValidSemver L []"
    and names: "n \<notin> set Object_prototype"
      "fst ` set (workspacePackages project) \<inter> set Object_prototype = {}"
  shows "set (missingDependentNames project (YMap es) n) =
           {m. m \<noteq> n \<and>
               (\<exists>dp. map_of (workspacePackages project) m = Some dp \<and>
                     (n \<in> set (map fst (dependencies (validatedManifest dp))) \<or>
                      n \<in> set (map fst (peerDependencies (validatedManifest dp)))) \<and>
                     hasChangesSinceLatestRelease dp) \<and>
               map_of es m \<in> {None, Some YNull, Some (YBool False), Some (YNum ''0''),
                               Some (YNum ''NaN''), Some (YStr [])}} \<and>
         (\<exists>pushed before after.
            validate_entry L project (YMap es) (indexOfFirstUsableLine contents) k (n, YStr v)
              = Inr pushed \<and>
            filter (\<lambda>e. is_missing_dependents (message e)) pushed =
              (if missingDependentNames project (YMap es) n = [] then []
               else [\<lparr>message = MissingDependents n (missingDependentNames project (YMap es) n),
                      lineNumber = None\<rparr>]) \<and>
            validateReleaseSpecification L parse project p contents =
              (if callback_returns L project (YMap es) (indexOfFirstUsableLine contents)
                    (own_entries es)
               then (if before @ pushed @ after = []
                     then Inr \<lparr>packages = released_packages (YMap es) (own_entries es), path = p\<rparr>
                     else Inl (ReleaseSpecificationError (before @ pushed @ after)))
               else Inl TypeError))"
proof -
  have "own_entries es ! k \<in> set (own_entries es)" using k by (simp del: set_own_entries)
  then have "(n, YStr v) \<in> set es" using entry by simp
  then have "map_of es n = Some (YStr v)" using keys by simp
  moreover have "v \<noteq> []" using trigger library by auto
  ultimately have own: "map_of es n \<notin> {None, Some YNull, Some (YBool False), Some (YNum ''0''),
                               Some (YNum ''NaN''), Some (YStr [])}"
    by simp
  have listed: "set (missingDependentNames project (YMap es) n) =
           {m. m \<noteq> n \<and>
               (\<exists>dp. map_of (workspacePackages project) m = Some dp \<and>
                     (n \<in> set (map fst (dependencies (validatedManifest dp))) \<or>
                      n \<in> set (map fst (peerDependencies (validatedManifest dp)))) \<and>
                     hasChangesSinceLatestRelease dp) \<and>
               map_of es m \<in> {None, Some YNull, Some (YBool False), Some (YNum ''0''),
                               Some (YNum ''NaN''), Some (YStr [])}}"
  proof -
    from names(2) have "\<forall>m \<in> fst ` set (workspacePackages project). m \<notin> set Object_prototype"
      by blast
    from set_missingDependentNames [OF this, of es n] own show ?thesis by blast
  qed
  from dependents_pushed [OF trigger library(1) names(1), of "YMap es" "indexOfFirstUsableLine contents" k]
  obtain pushed where
    pushed: "validate_entry L project (YMap es) (indexOfFirstUsableLine contents) k (n, YStr v) = Inr pushed"
    and errs: "filter (\<lambda>e. is_missing_dependents (message e)) pushed =
              (if missingDependentNames project (YMap es) n = [] then []
               else [\<lparr>message = MissingDependents n (missingDependentNames project (YMap es) n),
                      lineNumber = None\<rparr>])"
    by blast
  have "validate_entry L project (YMap es) (indexOfFirstUsableLine contents) k (own_entries es ! k)
          = Inr pushed"
    using pushed entry by simp
  from entry_reported [where parse = parse and contents = contents, OF doc k this]
  obtain before after where
    "validateReleaseSpecification L parse project p contents =
       (if callback_returns L project (YMap es) (indexOfFirstUsableLine contents) (own_entries es)
        then (if before @ pushed @ after = []
              then Inr \<lparr>packages = released_packages (YMap es) (own_entries es), path = p\<rparr>
              else Inl (ReleaseSpecificationError (before @ pushed @ after)))
        else Inl TypeError)"
    by blast
  with pushed errs listed show ?thesis by blast
qed

theorem C1_missing_dependents_witness:
  "distinct (map fst [(''a'', YStr ''major'')]) \<and>
   (0::nat) < length [(''a'', YStr ''major'')] \<and>
   own_entries [(''a'', YStr ''major'')] ! 0 = (''a'', YStr ''major'') \<and>
   \<not> isValidSemver plain_semver ''major'' \<and> \<not> isValidSemver plain_semver [] \<and>
   ''a'' \<notin> set Object_prototype \<and>
   fst ` set (workspacePackages example_project) \<inter> set Object_prototype = {} \<and>
   set (missingDependentNames example_project (YMap [(''a'', YStr ''major'')]) ''a'') = {''b''} \<and>
   (\<exists>pushed before after.
      validate_entry plain_semver example_project (YMap [(''a'', YStr ''major'')])
        (indexOfFirstUsableLine (''packages:'' @ [newline] @ ''  a: major'')) 0
        (''a'', YStr ''major'') = Inr pushed \<and>
      filter (\<lambda>e. is_missing_dependents (message e)) pushed =
        [\<lparr>message = MissingDependents ''a'' [''b''], lineNumber = None\<rparr>] \<and>
      validateReleaseSpecification plain_semver
        (\<lambda>contents. Some (YMap [(''packages'', YMap [(''a'', YStr ''major'')])]))
        example_project ''spec.yml'' (''packages:'' @ [newline] @ ''  a: major'')
      = Inl (ReleaseSpecificationError (before @ pushed @ after))) \<and>
   validateReleaseSpecification plain_semver
     (\<lambda>contents. Some (YMap [(''packages'', YMap [(''a'', YStr ''major'')])]))
     example_project ''spec.yml'' (''packages:'' @ [newline] @ ''  a: major'')
   = Inl (ReleaseSpecificationError
        [\<lparr>message = MissingDependents ''a'' [''b''], lineNumber = None\<rparr>])"
proof -
  have own: "own_entries [(''a'', YStr ''major'')] = [(''a'', YStr ''major'')]"
    by (simp add: own_entries_def array_index_def numeral_value_def)
  have run: "validateReleaseSpecification plain_semver
     (\<lambda>contents. Some (YMap [(''packages'', YMap [(''a'', YStr ''major'')])]))
     example_project ''spec.yml'' (''packages:'' @ [newline] @ ''  a: major'')
   = Inl (ReleaseSpecificationError
        [\<lparr>message = MissingDependents ''a'' [''b''], lineNumber = None\<rparr>])"
    by (simp add: validator_defs example_defs)
  from C1_missing_dependents [of "\<lambda>contents. Some (YMap [(''packages'', YMap [(''a'', YStr ''major'')])])"
      "''packages:'' @ [newline] @ ''  a: major''" "[(''packages'', YMap [(''a'', YStr ''major'')])]"
      "[(''a'', YStr ''major'')]" 0 "''a''" "''major''" example_project plain_semver "''spec.yml''"]
  have inst: "set (missingDependentNames example_project (YMap [(''a'', YStr ''major'')]) ''a'') =
           {m. m \<noteq> ''a'' \<and>
               (\<exists>dp. map_of (workspacePackages example_project) m = Some dp \<and>
                     (''a'' \<in> set (map fst (dependencies (validatedManifest dp))) \<or>
                      ''a'' \<in> set (map fst (peerDependencies (validatedManifest dp)))) \<and>
                     hasChangesSinceLatestRelease dp) \<and>
               map_of [(''a'', YStr ''major'')] m \<in> {None, Some YNull, Some (YBool False),
                               Some (YNum ''0''), Some (YNum ''NaN''), Some (YStr [])}} \<and>
    (\<exists>pushed before after.
      validate_entry plain_semver example_project (YMap [(''a'', YStr ''major'')])
        (indexOfFirstUsableLine (''packages:'' @ [newline] @ ''  a: major'')) 0
        (''a'', YStr ''major'') = Inr pushed \<and>
      filter (\<lambda>e. is_missing_dependents (message e)) pushed =
        [\<lparr>message = MissingDependents ''a'' [''b''], lineNumber = None\<rparr>] \<and>
      validateReleaseSpecification plain_semver
        (\<lambda>contents. Some (YMap [(''packages'', YMap [(''a'', YStr ''major'')])]))
        example_project ''spec.yml'' (''packages:'' @ [newline] @ ''  a: major'')
      = (if callback_returns plain_semver example_project (YMap [(''a'', YStr ''major'')])
              (indexOfFirstUsableLine (''packages:'' @ [newline] @ ''  a: major''))
              (own_entries [(''a'', YStr ''major'')])
        then (if before @ pushed @ after = []
              then Inr \<lparr>packages = released_packages (YMap [(''a'', YStr ''major'')])
                                      (own_entries [(''a'', YStr ''major'')]), path = ''spec.yml''\<rparr>
              else Inl (ReleaseSpecificationError (before @ pushed @ after)))
        else Inl TypeError))"
    using own example_names(1,2) plain_semver_valid(3,7) example_missing_dependents by simp
  then obtain pushed before after where
    a: "validate_entry plain_semver example_project (YMap [(''a'', YStr ''major'')])
        (indexOfFirstUsableLine (''packages:'' @ [newline] @ ''  a: major'')) 0
        (''a'', YStr ''major'') = Inr pushed"
    and b: "filter (\<lambda>e. is_missing_dependents (message e)) pushed =
        [\<lparr>message = MissingDependents ''a'' [''b''], lineNumber = None\<rparr>]"
    and c: "validateReleaseSpecification plain_semver
        (\<lambda>contents. Some (YMap [(''packages'', YMap [(''a'', YStr ''major'')])]))
        example_project ''spec.yml'' (''packages:'' @ [newline] @ ''  a: major'')
      = (if callback_returns plain_semver example_project (YMap [(''a'', YStr ''major'')])
              (indexOfFirstUsableLine (''packages:'' @ [newline] @ ''  a: major''))
              (own_entries [(''a'', YStr ''major'')])
        then (if before @ pushed @ after = []
              then Inr \<lparr>packages = released_packages (YMap [(''a'', YStr ''major'')])
                                      (own_entries [(''a'', YStr ''major'')]), path = ''spec.yml''\<rparr>
              else Inl (ReleaseSpecificationError (before @ pushed @ after)))
        else Inl TypeError)"
    by blast
  from c run have "validateReleaseSpecification plain_semver
        (\<lambda>contents. Some (YMap [(''packages'', YMap [(''a'', YStr ''major'')])]))
        example_project ''spec.yml'' (''packages:'' @ [newline] @ ''  a: major'')
      = Inl (ReleaseSpecificationError (before @ pushed @ after))"
    by (simp split: if_splits)
  with a b have "\<exists>pushed before after.
      validate_entry plain_semver example_project (YMap [(''a'', YStr ''major'')])
        (indexOfFirstUsableLine (''packages:'' @ [newline] @ ''  a: major'')) 0
        (''a'', YStr ''major'') = Inr pushed \<and>
      filter (\<lambda>e. is_missing_dependents (message e)) pushed =
        [\<lparr>message = MissingDependents ''a'' [''b''], lineNumber = None\<rparr>] \<and>
      validateReleaseSpecification plain_semver
        (\<lambda>contents. Some (YMap [(''packages'', YMap [(''a'', YStr ''major'')])]))
        example_project ''spec.yml'' (''packages:'' @ [newline] @ ''  a: major'')
      = Inl (ReleaseSpecificationError (before @ pushed @ after))"
    by blast
  then show ?thesis
    using own run example_names(1,2) plain_semver_valid(3,7) example_missing_dependents by simp
qed

text \<open>
  Claim C1, as the spec words it, subtracts the dependents with a non-null entry. The
  dependent \<^verbatim>\<open>b\<close> with the empty string as its entry has a non-null entry, and the
  validator names it as a missing dependent of \<^verbatim>\<open>a\<close>; so it does with the entry
  \<^verbatim>\<open>0\<close> or \<^verbatim>\<open>false\<close>.
\<close>

theorem C1_counterexample:
  \<open>has_non_null_entry [(''a'', YStr ''major''), (''b'', YStr [])] ''b'' \<and>
   spec_missingDependentNames example_project [(''a'', YStr ''major''), (''b'', YStr [])] ''a'' = [] \<and>
   missingDependentNames example_project (YMap [(''a'', YStr ''major''), (''b'', YStr [])]) ''a''
     = [''b''] \<and>
   validateReleaseSpecification plain_semver
     (\<lambda>contents. Some (YMap [(''packages'', YMap [(''a'', YStr ''major''), (''b'', YStr [])])]))
     example_project ''spec.yml''
     (''packages:'' @ [newline] @ ''  a: major'' @ [newline] @ ''  b: ""'')
   = Inl (ReleaseSpecificationError
       [\<lparr>message = MissingDependents ''a'' [''b''], lineNumber = None\<rparr>,
        \<lparr>message = InvalidVersionSpecifier (YStr []) ''b'', lineNumber = Some 3\<rparr>]) \<and>
   has_non_null_entry [(''a'', YStr ''major''), (''b'', YNum ''0'')] ''b'' \<and>
   validateReleaseSpecification plain_semver
     (\<lambda>contents. Some (YMap [(''packages'', YMap [(''a'', YStr ''major''), (''b'', YNum ''0'')])]))
     example_project ''spec.yml''
     (''packages:'' @ [newline] @ ''  a: major'' @ [newline] @ ''  b: 0'')
   = Inl (ReleaseSpecificationError
       [\<lparr>message = MissingDependents ''a'' [''b''], lineNumber = None\<rparr>,
        \<lparr>message = InvalidVersionSpecifier (YNum ''0'') ''b'', lineNumber = Some 3\<rparr>])\<close>
  by (simp add: validator_defs example_defs has_non_null_entry_def spec_missingDependentNames_def)

subsection \<open>Missing dependencies\<close>

lemma dependencies_pushed_if:
  assumes known: "map_of (workspacePackages project) n = Some pkg"
  shows "\<exists>pushed. validate_entry L project pk f i (n, v) = Inr pushed \<and>
     filter (\<lambda>e. is_missing_dependencies (message e)) pushed =
       (if truthy v \<and> (to_string v \<in> {''major'', ''minor'', ''patch''} \<or> is_valid_semver L v) \<and>
           missingDependencies project pk pkg \<noteq> []
        then [\<lparr>message = MissingDependencies n (missingDependencies project pk pkg),
               lineNumber = None\<rparr>]
        else [])"
proof -
  have own: "lookup (workspacePackages project) n = Own pkg"
    using known by (simp add: lookup_Own_iff)
  from validate_entry_returns [of project n L v pk f i] own
  obtain pushed where pushed: "validate_entry L project pk f i (n, v) = Inr pushed" by auto
  from validate_entry_Inr [OF pushed] obtain versionErrors dependentErrors dependencyErrors where
    ve: "check_version L (lookup (workspacePackages project) n) n v (lineNumber_of f i) = Inr versionErrors"
    and de: "check_dependents L project pk (lookup (workspacePackages project) n) n v = Inr dependentErrors"
    and dc: "check_dependencies L project pk (lookup (workspacePackages project) n) n v = Inr dependencyErrors"
    and eq: "pushed = check_package_exists (lookup (workspacePackages project) n) n (lineNumber_of f i)
              @ check_specifier L n v (lineNumber_of f i)
              @ versionErrors @ dependentErrors @ dependencyErrors"
    by blast
  have "check_dependencies L project pk (Own pkg) n v =
       Inr (if truthy v \<and> (to_string v \<in> {''major'', ''minor'', ''patch''} \<or> is_valid_semver L v) \<and>
               missingDependencies project pk pkg \<noteq> []
            then [\<lparr>message = MissingDependencies n (missingDependencies project pk pkg),
                   lineNumber = None\<rparr>]
            else [])"
    by (simp add: check_dependencies_def Let_def enum_key_iff)
  with dc own have "dependencyErrors =
       (if truthy v \<and> (to_string v \<in> {''major'', ''minor'', ''patch''} \<or> is_valid_semver L v) \<and>
           missingDependencies project pk pkg \<noteq> []
        then [\<lparr>message = MissingDependencies n (missingDependencies project pk pkg),
               lineNumber = None\<rparr>]
        else [])"
    by simp
  then have "filter (\<lambda>e. is_missing_dependencies (message e)) dependencyErrors =
       (if truthy v \<and> (to_string v \<in> {''major'', ''minor'', ''patch''} \<or> is_valid_semver L v) \<and>
           missingDependencies project pk pkg \<noteq> []
        then [\<lparr>message = MissingDependencies n (missingDependencies project pk pkg),
               lineNumber = None\<rparr>]
        else [])"
    by simp
  then show ?thesis
    using pushed filter_check_version [OF ve] filter_check_dependents [OF de] by (simp add: eq)
qed

lemma example_missing_dependencies:
  "missingDependencies example_project (YMap [(''b'', YStr ''minor'')])
     (example_package ''b'' [(''a'', ''^1.0.0'')] True) = [''a'']"
  by (simp add: validator_defs example_defs)




subsection \<open>Unknown packages\<close>

lemma unknown_package_pushed:
  assumes unknown: "n \<notin> fst ` set (workspacePackages project)" "n \<notin> set Object_prototype"
    and directive: "\<not> is_valid_semver L v"
  shows "validate_entry L project pk f i (n, v) =
     Inr ([\<lparr>message = NotAPackage n, lineNumber = Some (lineNumber_of f i)\<rparr>] @
          (if v \<noteq> YNull \<and> v \<noteq> YStr ''intentionally-skip'' \<and>
              to_string v \<notin> {''major'', ''minor'', ''patch''}
           then [\<lparr>message = InvalidVersionSpecifier v n, lineNumber = Some (lineNumber_of f i)\<rparr>]
           else []) @
          (if v = YStr ''major'' \<and> missingDependentNames project pk n \<noteq> []
           then [\<lparr>message = MissingDependents n (missingDependentNames project pk n),
                  lineNumber = None\<rparr>]
           else []))"
proof -
  have "map_of (workspacePackages project) n = None"
    using unknown(1) by (simp add: map_of_eq_None_iff)
  then have absent: "lookup (workspacePackages project) n = Absent"
    using unknown(2) by (simp add: lookup_def)
  have exists: "check_package_exists Absent n (lineNumber_of f i) =
      [\<lparr>message = NotAPackage n, lineNumber = Some (lineNumber_of f i)\<rparr>]"
    by (simp add: check_package_exists_def)
  have specifier: "check_specifier L n v (lineNumber_of f i) =
      (if v \<noteq> YNull \<and> v \<noteq> YStr ''intentionally-skip'' \<and>
          to_string v \<notin> {''major'', ''minor'', ''patch''}
       then [\<lparr>message = InvalidVersionSpecifier v n, lineNumber = Some (lineNumber_of f i)\<rparr>]
       else [])"
    using directive
    by (simp add: check_specifier_def enum_key_iff SKIP_PACKAGE_DIRECTIVE_def
        INTENTIONALLY_SKIP_PACKAGE_DIRECTIVE_def)
  have version: "check_version L Absent n v (lineNumber_of f i) = Inr []"
    using directive by (cases v) (simp_all add: check_version_def)
  have bump: "is_major_bump L Absent v = Inr (v = YStr ''major'')"
    using directive by (cases v) (auto simp: is_major_bump_def)
  have dependents: "check_dependents L project pk Absent n v =
      Inr (if v = YStr ''major'' \<and> missingDependentNames project pk n \<noteq> []
           then [\<lparr>message = MissingDependents n (missingDependentNames project pk n),
                  lineNumber = None\<rparr>]
           else [])"
    using bump by (auto simp: check_dependents_def Let_def split: bool.splits)
  have dependencies: "check_dependencies L project pk Absent n v = Inr []"
    by (simp add: check_dependencies_def)
  show ?thesis
    by (simp add: validate_entry_def Let_def absent exists specifier version dependents
        dependencies del: append.simps)
qed




subsection \<open>The unguarded dereference\<close>

lemma validate_TypeError_iff:
  assumes "parse contents = Some (YMap d)" and "map_of d ''packages'' = Some (YMap es)"
  shows "validateReleaseSpecification L parse project p contents = Inl TypeError \<longleftrightarrow>
     (\<exists>(n, v) \<in> set es.
        (\<forall>pkg. lookup (workspacePackages project) n \<noteq> Own pkg) \<and> is_valid_semver L v \<or>
        lookup (workspacePackages project) n = Inherited \<and> truthy v \<and>
        hasProperty IncrementableVersionParts_object (to_string v))"
proof -
  have "validateReleaseSpecification L parse project p contents = Inl TypeError \<longleftrightarrow>
      \<not> callback_returns L project (YMap es) (indexOfFirstUsableLine contents) (own_entries es)"
    using validate_mapping [where parse = parse and contents = contents, OF assms, of L project p]
    by (simp add: Let_def)
  also have "\<dots> \<longleftrightarrow> (\<exists>j < length (own_entries es).
        validate_entry L project (YMap es) (indexOfFirstUsableLine contents) j (own_entries es ! j)
          = Inl TypeError)"
  proof -
    have "(\<forall>pushed. x \<noteq> Inr pushed) \<longleftrightarrow> x = Inl TypeError"
      if "\<And>e. x = Inl e \<Longrightarrow> e = TypeError" for x :: "thrown + validation_error list"
      using that by (cases x) auto
    moreover have "validate_entry L project (YMap es) (indexOfFirstUsableLine contents) j
                     (own_entries es ! j) = Inl e \<Longrightarrow> e = TypeError" for j e
      by (rule validate_entry_Inl_TypeError)
    ultimately show ?thesis
      unfolding callback_returns_iff by (simp del: length_own_entries)
  qed
  also have "\<dots> \<longleftrightarrow> (\<exists>(n, v) \<in> set es.
        (\<forall>pkg. lookup (workspacePackages project) n \<noteq> Own pkg) \<and> is_valid_semver L v \<or>
        lookup (workspacePackages project) n = Inherited \<and> truthy v \<and>
        hasProperty IncrementableVersionParts_object (to_string v))"
    (is "?lhs \<longleftrightarrow> ?rhs")
  proof
    assume ?lhs
    then obtain j where j: "j < length (own_entries es)"
      and thrown: "validate_entry L project (YMap es) (indexOfFirstUsableLine contents) j
                     (own_entries es ! j) = Inl TypeError"
      by blast
    obtain n v where nv: "own_entries es ! j = (n, v)" by (cases "own_entries es ! j")
    have cond: "(\<forall>pkg. lookup (workspacePackages project) n \<noteq> Own pkg) \<and> is_valid_semver L v \<or>
        lookup (workspacePackages project) n = Inherited \<and> truthy v \<and>
        hasProperty IncrementableVersionParts_object (to_string v)"
      using thrown nv validate_entry_Inl_iff [of L project "YMap es" "indexOfFirstUsableLine contents" j n v TypeError]
      by simp
    have "own_entries es ! j \<in> set (own_entries es)" using j by (rule nth_mem)
    then have "(n, v) \<in> set es" using nv by simp
    with cond show ?rhs by (intro bexI [of _ "(n, v)"]) simp_all
  next
    assume ?rhs
    then obtain n v where mem: "(n, v) \<in> set es"
      and cond: "(\<forall>pkg. lookup (workspacePackages project) n \<noteq> Own pkg) \<and> is_valid_semver L v \<or>
        lookup (workspacePackages project) n = Inherited \<and> truthy v \<and>
        hasProperty IncrementableVersionParts_object (to_string v)"
      by blast
    from mem have "(n, v) \<in> set (own_entries es)" by simp
    then obtain j where j: "j < length (own_entries es)" and nv: "own_entries es ! j = (n, v)"
      unfolding in_set_conv_nth by blast
    have "validate_entry L project (YMap es) (indexOfFirstUsableLine contents) j (n, v) = Inl TypeError"
      using cond validate_entry_Inl_iff [of L project "YMap es" "indexOfFirstUsableLine contents" j n v TypeError]
      by simp
    with j nv show ?lhs by auto
  qed
  finally show ?thesis .
qed



subsection \<open>The template\<close>

lemma split_on_not_Nil [simp]: "split_on c s \<noteq> []"
  by (induction s) (auto split: list.splits)

lemma split_on_append: "split_on c (a @ c # b) = split_on c a @ split_on c b"
proof (induction a)
  case Nil
  then show ?case by simp
next
  case (Cons x a)
  obtain l ls where "split_on c a = l # ls" by (cases "split_on c a") simp_all
  with Cons show ?case by simp
qed

lemma split_on_no_separator: "c \<notin> set s \<Longrightarrow> split_on c s = [s]"
  by (induction s) auto

lemma split_on_join:
  "ls \<noteq> [] \<Longrightarrow> \<forall>l \<in> set ls. c \<notin> set l \<Longrightarrow> split_on c (join_with [c] ls) = ls"
proof (induction ls)
  case Nil
  then show ?case by simp
next
  case (Cons l ls)
  show ?case
  proof (cases ls)
    case Nil
    with Cons.prems show ?thesis by (simp add: split_on_no_separator)
  next
    case (Cons v va)
    with Cons.IH Cons.prems have "split_on c (join_with [c] ls) = ls" by simp
    moreover have "join_with [c] (l # ls) = l @ c # join_with [c] ls"
      using Cons by simp
    ultimately show ?thesis
      using Cons.prems by (simp add: split_on_append split_on_no_separator del: join_with.simps)
  qed
qed

lemma update_fresh: "k \<notin> fst ` set al \<Longrightarrow> AList.update k v al = al @ [(k, v)]"
  by (induction al) auto

lemma fold_update_fresh:
  "distinct (map f xs) \<Longrightarrow> f ` set xs \<inter> fst ` set acc = {} \<Longrightarrow>
   fold (\<lambda>x obj. AList.update (f x) v obj) xs acc = acc @ map (\<lambda>x. (f x, v)) xs"
proof (induction xs arbitrary: acc)
  case Nil
  then show ?case by simp
next
  case (Cons x xs)
  from Cons.prems have fresh: "f x \<notin> fst ` set acc" by auto
  have "f ` set xs \<inter> fst ` set (acc @ [(f x, v)]) = {}"
    using Cons.prems by auto
  with Cons.IH [of "acc @ [(f x, v)]"] Cons.prems fresh show ?case
    by (simp add: update_fresh)
qed

lemma changed_names:
  "list_all (\<lambda>(k, pkg). name (validatedManifest pkg) = k) wp \<Longrightarrow>
   map (\<lambda>pkg. name (validatedManifest pkg)) (filter hasChangesSinceLatestRelease (map snd wp))
     = map fst (filter (\<lambda>(k, pkg). hasChangesSinceLatestRelease pkg) wp)"
  by (induction wp) auto

lemma changed_entries:
  "list_all (\<lambda>(k, pkg). name (validatedManifest pkg) = k) wp \<Longrightarrow>
   map (\<lambda>pkg. (name (validatedManifest pkg), v)) (filter hasChangesSinceLatestRelease (map snd wp))
     = map (\<lambda>(k, pkg). (k, v)) (filter (\<lambda>(k, pkg). hasChangesSinceLatestRelease pkg) wp)"
  by (induction wp) auto

lemma template_packages_invariant:
  assumes "project_invariant project"
  shows "template_packages project
         = map (\<lambda>(k, pkg). (k, YNull))
             (filter (\<lambda>(k, pkg). hasChangesSinceLatestRelease pkg)
                (own_entries (workspacePackages project)))"
proof -
  let ?wp = "own_entries (workspacePackages project)"
  have "list_all (\<lambda>(k, pkg). name (validatedManifest pkg) = k) (workspacePackages project)"
    using assms by (simp add: project_invariant_def)
  then have names: "list_all (\<lambda>(k, pkg). name (validatedManifest pkg) = k) ?wp"
    by (simp add: list_all_iff)
  have keys: "distinct (map fst ?wp)"
    using assms by (simp add: project_invariant_def distinct_own_entries)
  have "distinct (map fst (filter (\<lambda>(k, pkg). hasChangesSinceLatestRelease pkg) ?wp))"
    using keys by (simp add: distinct_map_filter)
  then have "distinct (map (\<lambda>pkg. name (validatedManifest pkg)) (changedWorkspacePackages project))"
    using changed_names [OF names] by (simp add: changedWorkspacePackages_def)
  then have "template_packages project
      = map (\<lambda>pkg. (name (validatedManifest pkg), SKIP_PACKAGE_DIRECTIVE)) (changedWorkspacePackages project)"
    unfolding template_packages_def
    using fold_update_fresh [of "\<lambda>pkg. name (validatedManifest pkg)" "changedWorkspacePackages project" "[]" SKIP_PACKAGE_DIRECTIVE]
    by simp
  then show ?thesis
    using changed_entries [OF names]
    by (simp add: changedWorkspacePackages_def SKIP_PACKAGE_DIRECTIVE_def)
qed

lemma changed_empty:
  "changedWorkspacePackages project = [] \<longleftrightarrow>
   \<not> (\<exists>pkg \<in> snd ` set (workspacePackages project). hasChangesSinceLatestRelease pkg)"
  by (auto simp: changedWorkspacePackages_def filter_empty_conv)

lemma instruction_lines_comments:
  "length (instruction_lines root isEditorAvailable) = 12"
  "list_all (\<lambda>line. take 1 line = ''#'') (instruction_lines root isEditorAvailable)"
  by (simp_all add: instruction_lines_def afterEditingInstructions_def)

lemma instruction_lines_no_newline:
  "newline \<notin> set (name (validatedManifest root)) \<Longrightarrow>
   \<forall>line \<in> set (instruction_lines root isEditorAvailable). newline \<notin> set line"
  by (simp add: instruction_lines_def afterEditingInstructions_def newline_def)

lemma split_lines_template:
  assumes "newline \<notin> set (name (validatedManifest root))"
  shows "split_lines (join_with [newline, newline] [instructions root isEditorAvailable, body])
         = instruction_lines root isEditorAvailable @ [] # split_lines body"
proof -
  have "instruction_lines root isEditorAvailable \<noteq> []"
    using instruction_lines_comments(1) [of root isEditorAvailable] by auto
  then have "split_on newline (instructions root isEditorAvailable)
      = instruction_lines root isEditorAvailable"
    unfolding instructions_def
    using instruction_lines_no_newline [OF assms] by (intro split_on_join) simp_all
  then show ?thesis
    using split_on_append [of newline "instructions root isEditorAvailable" "newline # body"]
    by (simp add: split_lines_def)
qed

text \<open>
  Claim C8. Template generation throws the error of an empty release set exactly when no
  workspace package has changes since its latest release, and then returns no document.
  Otherwise it returns a document: the instructions, two line breaks, and the rendering
  of an object whose only property \<^verbatim>\<open>packages\<close> is the mapping
  \<open>template_packages project\<close>. The instructions are twelve lines, each a comment; when
  the name of the root package has no line break, the lines of the document are these
  twelve lines, an empty line, and the lines of the rendering, so the header precedes
  the mapping. For a project that satisfies its invariant the mapping has exactly one
  entry per changed workspace package, in the order of the properties of
  \<^verbatim>\<open>workspacePackages\<close>, each with the directive \<^verbatim>\<open>null\<close>.
\<close>

theorem C8_template:
  "(generateReleaseSpecificationTemplateForMonorepo stringify project isEditorAvailable
      = Inl EmptyReleaseSetError
    \<longleftrightarrow> \<not> (\<exists>pkg \<in> snd ` set (workspacePackages project). hasChangesSinceLatestRelease pkg)) \<and>
   ((\<exists>pkg \<in> snd ` set (workspacePackages project). hasChangesSinceLatestRelease pkg) \<longrightarrow>
      (\<exists>document.
         generateReleaseSpecificationTemplateForMonorepo stringify project isEditorAvailable
           = Inr document \<and>
         document = join_with [newline] (instruction_lines (rootPackage project) isEditorAvailable)
                    @ [newline, newline]
                    @ stringify (YMap [(''packages'', YMap (template_packages project))]) \<and>
         (newline \<notin> set (name (validatedManifest (rootPackage project))) \<longrightarrow>
            split_lines document
              = instruction_lines (rootPackage project) isEditorAvailable
                @ [] # split_lines (stringify (YMap [(''packages'', YMap (template_packages project))]))))) \<and>
   length (instruction_lines (rootPackage project) isEditorAvailable) = 12 \<and>
   list_all (\<lambda>line. take 1 line = ''#'') (instruction_lines (rootPackage project) isEditorAvailable) \<and>
   (project_invariant project \<longrightarrow>
      template_packages project
        = map (\<lambda>(k, pkg). (k, YNull))
            (filter (\<lambda>(k, pkg). hasChangesSinceLatestRelease pkg)
               (own_entries (workspacePackages project))))"
proof -
  let ?rendering = "stringify (YMap [(''packages'', YMap (template_packages project))])"
  have empty: "generateReleaseSpecificationTemplateForMonorepo stringify project isEditorAvailable
      = Inl EmptyReleaseSetError
    \<longleftrightarrow> \<not> (\<exists>pkg \<in> snd ` set (workspacePackages project). hasChangesSinceLatestRelease pkg)"
    using changed_empty [of project]
    by (simp add: generateReleaseSpecificationTemplateForMonorepo_def)
  have document: "generateReleaseSpecificationTemplateForMonorepo stringify project isEditorAvailable
        = Inr (join_with [newline] (instruction_lines (rootPackage project) isEditorAvailable)
               @ [newline, newline] @ ?rendering)"
    if "\<exists>pkg \<in> snd ` set (workspacePackages project). hasChangesSinceLatestRelease pkg"
    using that changed_empty [of project]
    by (simp add: generateReleaseSpecificationTemplateForMonorepo_def instructions_def)
  have lines: "split_lines (join_with [newline] (instruction_lines (rootPackage project) isEditorAvailable)
               @ [newline, newline] @ ?rendering)
         = instruction_lines (rootPackage project) isEditorAvailable @ [] # split_lines ?rendering"
    if "newline \<notin> set (name (validatedManifest (rootPackage project)))"
    using split_lines_template [OF that, of isEditorAvailable ?rendering]
    by (simp add: instructions_def)
  have mapping: "project_invariant project \<longrightarrow>
      template_packages project
        = map (\<lambda>(k, pkg). (k, YNull))
            (filter (\<lambda>(k, pkg). hasChangesSinceLatestRelease pkg)
               (own_entries (workspacePackages project)))"
    using template_packages_invariant [of project] by simp
  from empty document lines mapping instruction_lines_comments [of "rootPackage project" isEditorAvailable]
  show ?thesis by blast
qed

lemma example_template_packages:
  "template_packages example_project = [(''a'', YNull), (''b'', YNull)]"
  by (simp add: template_packages_def changedWorkspacePackages_def example_project_def
      example_package_def own_entries_def array_index_def numeral_value_def
      SKIP_PACKAGE_DIRECTIVE_def)

theorem C8_template_witness:
  \<open>(\<exists>pkg \<in> snd ` set (workspacePackages example_project). hasChangesSinceLatestRelease pkg) \<and>
   newline \<notin> set (name (validatedManifest (rootPackage example_project))) \<and>
   project_invariant example_project \<and>
   (\<exists>document.
      generateReleaseSpecificationTemplateForMonorepo example_stringify example_project True
        = Inr document \<and>
      split_lines document =
        [''# The following is a list of packages in root.'',
         ''# Please indicate the packages for which you want to create a new release'',
         ''# by updating "null" to one of the following:'',
         ''#'',
         ''# - "major" (if you want to bump the major part of the package's version)'',
         ''# - "minor" (if you want to bump the minor part of the package's version)'',
         ''# - "patch" (if you want to bump the patch part of the package's version)'',
         ''# - an exact version with major, minor, and patch parts (e.g. "1.2.3")'',
         ''# - intentionally-skip (to skip the package entirely)'',
         ''#'',
         ''# When you're finished making your selections, save this file and'',
         ''# create-release-branch will continue automatically.'',
         [],
         ''packages:'',
         ''  a: null'',
         ''  b: null'',
         []]) \<and>
   \<not> (\<exists>pkg \<in> snd ` set (workspacePackages unchanged_project). hasChangesSinceLatestRelease pkg) \<and>
   generateReleaseSpecificationTemplateForMonorepo example_stringify unchanged_project True
     = Inl EmptyReleaseSetError\<close>
proof -
  have inv: "project_invariant example_project"
    by (simp add: project_invariant_def example_project_def example_package_def)
  have ch: "\<exists>pkg \<in> snd ` set (workspacePackages example_project). hasChangesSinceLatestRelease pkg"
    by (simp add: example_project_def example_package_def)
  have un: "\<not> (\<exists>pkg \<in> snd ` set (workspacePackages unchanged_project). hasChangesSinceLatestRelease pkg)"
    by (simp add: unchanged_project_def example_package_def)
  have nm: "newline \<notin> set (name (validatedManifest (rootPackage example_project)))"
    by (simp add: example_project_def example_package_def newline_def)
  have rendering: "split_lines (example_stringify (YMap [(''packages'', YMap [(''a'', YNull), (''b'', YNull)])]))
      = [''packages:'', ''  a: null'', ''  b: null'', []]"
    by (simp add: example_stringify_def split_lines_def newline_def)
  have header: \<open>instruction_lines (rootPackage example_project) True =
        [''# The following is a list of packages in root.'',
         ''# Please indicate the packages for which you want to create a new release'',
         ''# by updating "null" to one of the following:'',
         ''#'',
         ''# - "major" (if you want to bump the major part of the package's version)'',
         ''# - "minor" (if you want to bump the minor part of the package's version)'',
         ''# - "patch" (if you want to bump the patch part of the package's version)'',
         ''# - an exact version with major, minor, and patch parts (e.g. "1.2.3")'',
         ''# - intentionally-skip (to skip the package entirely)'',
         ''#'',
         ''# When you're finished making your selections, save this file and'',
         ''# create-release-branch will continue automatically.'']\<close>
    by (simp add: instruction_lines_def afterEditingInstructions_def example_project_def
        example_package_def)
  from C8_template [of example_stringify example_project True] ch nm
  obtain document where
    "generateReleaseSpecificationTemplateForMonorepo example_stringify example_project True
        = Inr document"
    "split_lines document = instruction_lines (rootPackage example_project) True
       @ [] # split_lines (example_stringify (YMap [(''packages'', YMap (template_packages example_project))]))"
    by blast
  then have "\<exists>document.
      generateReleaseSpecificationTemplateForMonorepo example_stringify example_project True
        = Inr document \<and>
      split_lines document = instruction_lines (rootPackage example_project) True
       @ [] # [''packages:'', ''  a: null'', ''  b: null'', []]"
    using rendering example_template_packages by auto
  moreover have "generateReleaseSpecificationTemplateForMonorepo example_stringify unchanged_project True
     = Inl EmptyReleaseSetError"
    using C8_template [of example_stringify unchanged_project True] un by blast
  ultimately show ?thesis
    using inv ch un nm unfolding header by simp
qed

subsection \<open>Line numbers\<close>

lemma findIndex_from_append:
  "list_all (\<lambda>x. \<not> p x) xs \<Longrightarrow> p y \<Longrightarrow> findIndex_from p k (xs @ y # ys) = int (k + length xs)"
  by (induction xs arbitrary: k) auto

lemma indexOfFirstUsableLine_eq:
  assumes "split_lines contents = header @ first # rest"
    and "list_all matches_comment_or_space header"
    and "\<not> matches_comment_or_space first"
  shows "indexOfFirstUsableLine contents = int (length header)"
  using assms
    findIndex_from_append [of "\<lambda>line. \<not> matches_comment_or_space line" header first 0 rest]
  by (simp add: indexOfFirstUsableLine_def findIndex_def)

lemma takeWhile_header:
  "list_all p header \<Longrightarrow> \<not> p first \<Longrightarrow> takeWhile p (header @ first # rest) = header"
  by (induction header) auto

lemma pushed_lines:
  assumes "validate_entry L project pk f i entry = Inr pushed"
  shows "lineNumber ` set pushed \<subseteq> {None, Some (lineNumber_of f i)}"
proof -
  obtain n v where entry: "entry = (n, v)" by (cases entry)
  from validate_entry_Inr [OF assms [unfolded entry]]
  obtain versionErrors dependentErrors dependencyErrors where
    ve: "check_version L (lookup (workspacePackages project) n) n v (lineNumber_of f i) = Inr versionErrors"
    and de: "check_dependents L project pk (lookup (workspacePackages project) n) n v = Inr dependentErrors"
    and dc: "check_dependencies L project pk (lookup (workspacePackages project) n) n v = Inr dependencyErrors"
    and eq: "pushed = check_package_exists (lookup (workspacePackages project) n) n (lineNumber_of f i)
              @ check_specifier L n v (lineNumber_of f i)
              @ versionErrors @ dependentErrors @ dependencyErrors"
    by blast
  have 1: "lineNumber ` set (check_package_exists (lookup (workspacePackages project) n) n (lineNumber_of f i))
      \<subseteq> {None, Some (lineNumber_of f i)}"
    by (auto simp: check_package_exists_def)
  have 2: "lineNumber ` set (check_specifier L n v (lineNumber_of f i))
      \<subseteq> {None, Some (lineNumber_of f i)}"
    by (auto simp: check_specifier_def)
  have 3: "lineNumber ` set versionErrors \<subseteq> {None, Some (lineNumber_of f i)}"
    using ve by (auto simp: check_version_def Let_def split: yaml.splits property.splits if_splits)
  have 4: "lineNumber ` set dependentErrors \<subseteq> {None, Some (lineNumber_of f i)}"
    using de by (auto simp: check_dependents_def Let_def split: sum.splits bool.splits if_splits)
  have 5: "lineNumber ` set dependencyErrors \<subseteq> {None, Some (lineNumber_of f i)}"
    using dc by (auto simp: check_dependencies_def Let_def split: property.splits if_splits)
  from 1 2 3 4 5 show ?thesis unfolding eq by (simp add: image_Un)
qed

text \<open>
  Claim C9, as the code has it, for a document in which the line \<^verbatim>\<open>packages:\<close> comes
  after a header of lines that are instructional both in the words of the spec and for
  the pattern of the code (each begins with \<^verbatim>\<open>#\<close>, or holds only white space with at
  least one space), the entries follow that line one per line (\<open>R\<close> relates a line to
  the entry that it holds), and no key is an array index, so that the entries are
  processed in the order of the document. For an entry on which the callback returns,
  the line number attributed to the entry at the 0-based position \<open>k\<close> is the count of
  leading instructional lines, plus one for the line \<^verbatim>\<open>packages:\<close>, plus \<open>k + 1\<close>:
  one more than the spec says. The line with that number holds the entry, every error
  that the callback pushes for the entry carries that number or none, and the validator
  reports these errors among those of the other entries.
\<close>

theorem C9_line_number:
  assumes doc: "parse contents = Some (YMap d)" "map_of d ''packages'' = Some (YMap es)"
    and lines: "split_lines contents = header @ ''packages:'' # rest"
    and header: "list_all (\<lambda>line. matches_comment_or_space line \<and> spec_instructional_line line)
                   header"
    and entries: "list_all2 R (take (length es) rest) es"
    and keys: "list_all (\<lambda>entry. array_index (fst entry) = None) es"
    and k: "k < length es"
    and returns: "validate_entry L project (YMap es) (indexOfFirstUsableLine contents) k
                    (own_entries es ! k) = Inr pushed"
  shows "lineNumber_of (indexOfFirstUsableLine contents) k
           = int (length (takeWhile spec_instructional_line (split_lines contents)))
             + 1 + (int k + 1) \<and>
         lineNumber_of (indexOfFirstUsableLine contents) k = spec_lineNumber contents k + 1 \<and>
         R (split_lines contents ! nat (lineNumber_of (indexOfFirstUsableLine contents) k - 1))
           (own_entries es ! k) \<and>
         lineNumber ` set pushed
           \<subseteq> {None, Some (lineNumber_of (indexOfFirstUsableLine contents) k)} \<and>
         (\<exists>before after.
            validateReleaseSpecification L parse project p contents =
              (if callback_returns L project (YMap es) (indexOfFirstUsableLine contents)
                    (own_entries es)
               then (if before @ pushed @ after = []
                     then Inr \<lparr>packages = released_packages (YMap es) (own_entries es), path = p\<rparr>
                     else Inl (ReleaseSpecificationError (before @ pushed @ after)))
               else Inl TypeError))"
proof -
  have matched: "list_all matches_comment_or_space header"
    and instructional: "list_all spec_instructional_line header"
    using header by (simp_all add: list_all_iff)
  have first: "\<not> matches_comment_or_space ''packages:''" "\<not> spec_instructional_line ''packages:''"
    by (simp_all add: matches_comment_or_space_def spec_instructional_line_def)
  have idx: "indexOfFirstUsableLine contents = int (length header)"
    using lines matched first(1) by (rule indexOfFirstUsableLine_eq)
  have count: "takeWhile spec_instructional_line (split_lines contents) = header"
    unfolding lines using instructional first(2) by (rule takeWhile_header)
  have number: "lineNumber_of (indexOfFirstUsableLine contents) k
           = int (length (takeWhile spec_instructional_line (split_lines contents)))
             + 1 + (int k + 1)"
    by (simp add: idx count lineNumber_of_def)
  then have spec: "lineNumber_of (indexOfFirstUsableLine contents) k = spec_lineNumber contents k + 1"
    by (simp add: spec_lineNumber_def)
  have order: "own_entries es = es" using keys by (rule own_entries_no_index)
  have len: "k < length (take (length es) rest)"
    using list_all2_lengthD [OF entries] k by simp
  then have "k < length rest" by simp
  have "nat (lineNumber_of (indexOfFirstUsableLine contents) k - 1) = length header + Suc k"
    by (simp add: idx lineNumber_of_def)
  then have "split_lines contents ! nat (lineNumber_of (indexOfFirstUsableLine contents) k - 1)
      = rest ! k"
    by (simp add: lines nth_append)
  also have "\<dots> = take (length es) rest ! k" using k by simp
  finally have line: "R (split_lines contents ! nat (lineNumber_of (indexOfFirstUsableLine contents) k - 1))
           (own_entries es ! k)"
    using list_all2_nthD [OF entries len] by (simp add: order)
  from entry_reported [where parse = parse and contents = contents, OF doc k returns]
  obtain before after where
    "validateReleaseSpecification L parse project p contents =
       (if callback_returns L project (YMap es) (indexOfFirstUsableLine contents) (own_entries es)
        then (if before @ pushed @ after = []
              then Inr \<lparr>packages = released_packages (YMap es) (own_entries es), path = p\<rparr>
              else Inl (ReleaseSpecificationError (before @ pushed @ after)))
        else Inl TypeError)"
    by blast
  with number spec line pushed_lines [OF returns] show ?thesis by blast
qed

theorem C9_line_number_witness:
  "split_lines (''# header'' @ [newline] @ ''packages:'' @ [newline] @ ''  a: patch'' @ [newline]
                @ ''  foo: null'')
     = [''# header''] @ ''packages:'' # [''  a: patch'', ''  foo: null''] \<and>
   list_all2 (\<lambda>line entry. line = ''  '' @ fst entry @ '': '' @ to_string (snd entry))
     (take (length [(''a'', YStr ''patch''), (''foo'', YNull)]) [''  a: patch'', ''  foo: null''])
     [(''a'', YStr ''patch''), (''foo'', YNull)] \<and>
   (1::nat) < length [(''a'', YStr ''patch''), (''foo'', YNull)] \<and>
   validate_entry plain_semver example_project (YMap [(''a'', YStr ''patch''), (''foo'', YNull)])
     (indexOfFirstUsableLine (''# header'' @ [newline] @ ''packages:'' @ [newline] @ ''  a: patch''
        @ [newline] @ ''  foo: null'')) 1
     (own_entries [(''a'', YStr ''patch''), (''foo'', YNull)] ! 1)
   = Inr [\<lparr>message = NotAPackage ''foo'', lineNumber = Some 4\<rparr>] \<and>
   lineNumber_of (indexOfFirstUsableLine (''# header'' @ [newline] @ ''packages:'' @ [newline]
        @ ''  a: patch'' @ [newline] @ ''  foo: null'')) 1 = 4 \<and>
   spec_lineNumber (''# header'' @ [newline] @ ''packages:'' @ [newline] @ ''  a: patch''
        @ [newline] @ ''  foo: null'') 1 = 3 \<and>
   split_lines (''# header'' @ [newline] @ ''packages:'' @ [newline] @ ''  a: patch'' @ [newline]
        @ ''  foo: null'') ! nat (4 - 1)
     = ''  '' @ fst (''foo'', YNull) @ '': '' @ to_string (snd (''foo'', YNull)) \<and>
   validateReleaseSpecification plain_semver
     (\<lambda>contents. Some (YMap [(''packages'', YMap [(''a'', YStr ''patch''), (''foo'', YNull)])]))
     example_project ''spec.yml''
     (''# header'' @ [newline] @ ''packages:'' @ [newline] @ ''  a: patch'' @ [newline]
        @ ''  foo: null'')
   = Inl (ReleaseSpecificationError [\<lparr>message = NotAPackage ''foo'', lineNumber = Some 4\<rparr>])"
proof -
  let ?contents = "''# header'' @ [newline] @ ''packages:'' @ [newline] @ ''  a: patch'' @ [newline]
        @ ''  foo: null''"
  let ?es = "[(''a'', YStr ''patch''), (''foo'', YNull)]"
  have h1: "split_lines ?contents = [''# header''] @ ''packages:'' # [''  a: patch'', ''  foo: null'']"
    by (simp add: split_lines_def newline_def)
  have h2: "list_all (\<lambda>line. matches_comment_or_space line \<and> spec_instructional_line line)
              [''# header'']"
    by (simp add: matches_comment_or_space_def spec_instructional_line_def)
  have h3: "list_all2 (\<lambda>line entry. line = ''  '' @ fst entry @ '': '' @ to_string (snd entry))
     (take (length ?es) [''  a: patch'', ''  foo: null'']) ?es"
    by simp
  have h4: "list_all (\<lambda>entry. array_index (fst entry) = None) ?es"
    by (simp add: array_index_def numeral_value_def)
  have h5: "(1::nat) < length ?es" by simp
  have own: "own_entries ?es = ?es" using h4 by (rule own_entries_no_index)
  have h6: "validate_entry plain_semver example_project (YMap ?es) (indexOfFirstUsableLine ?contents) 1
     (own_entries ?es ! 1) = Inr [\<lparr>message = NotAPackage ''foo'', lineNumber = Some 4\<rparr>]"
    unfolding own by (simp add: validator_defs example_defs)
  have run: "validateReleaseSpecification plain_semver (\<lambda>contents. Some (YMap [(''packages'', YMap ?es)]))
     example_project ''spec.yml'' ?contents
   = Inl (ReleaseSpecificationError [\<lparr>message = NotAPackage ''foo'', lineNumber = Some 4\<rparr>])"
    by (simp add: validator_defs example_defs)
  have d1: "(\<lambda>contents. Some (YMap [(''packages'', YMap ?es)])) ?contents
      = Some (YMap [(''packages'', YMap ?es)])"
    by simp
  have d2: "map_of [(''packages'', YMap ?es)] ''packages'' = Some (YMap ?es)" by simp
  note inst = C9_line_number [where parse = "\<lambda>contents. Some (YMap [(''packages'', YMap ?es)])"
      and contents = ?contents and d = "[(''packages'', YMap ?es)]" and es = ?es
      and header = "[''# header'']" and rest = "[''  a: patch'', ''  foo: null'']"
      and R = "\<lambda>line entry. line = ''  '' @ fst entry @ '': '' @ to_string (snd entry)"
      and k = 1 and L = plain_semver and project = example_project
      and pushed = "[\<lparr>message = NotAPackage ''foo'', lineNumber = Some 4\<rparr>]" and p = "''spec.yml''",
      OF d1 d2 h1 h2 h3 h4 h5 h6]
  have number: "lineNumber_of (indexOfFirstUsableLine ?contents) 1 = spec_lineNumber ?contents 1 + 1"
    by (rule inst [THEN conjunct2, THEN conjunct1])
  have line: "split_lines ?contents ! nat (lineNumber_of (indexOfFirstUsableLine ?contents) 1 - 1)
       = ''  '' @ fst (own_entries ?es ! 1) @ '': '' @ to_string (snd (own_entries ?es ! 1))"
    by (rule inst [THEN conjunct2, THEN conjunct2, THEN conjunct1])
  have spec: "spec_lineNumber ?contents 1 = 3"
    by (simp add: spec_lineNumber_def spec_instructional_line_def split_lines_def newline_def)
  from number spec have four: "lineNumber_of (indexOfFirstUsableLine ?contents) 1 = 4" by simp
  from line have "split_lines ?contents ! nat (4 - 1)
       = ''  '' @ fst (''foo'', YNull) @ '': '' @ to_string (snd (''foo'', YNull))"
    unfolding four own by simp
  with h1 h3 h5 h6 four spec run show ?thesis by blast
qed

text \<open>
  Claim C9, as the spec words it, fails on a document without a header: the entry is on
  line 2, the validator says 2, and the count of instructional lines plus the position
  of the entry is 1.
\<close>

theorem C9_counterexample:
  "lineNumber_of (indexOfFirstUsableLine (''packages:'' @ [newline] @ ''  foo: null'')) 0 = 2 \<and>
   spec_lineNumber (''packages:'' @ [newline] @ ''  foo: null'') 0 = 1 \<and>
   split_lines (''packages:'' @ [newline] @ ''  foo: null'') ! (2 - 1) = ''  foo: null'' \<and>
   validateReleaseSpecification plain_semver
     (\<lambda>contents. Some (YMap [(''packages'', YMap [(''foo'', YNull)])]))
     example_project ''spec.yml'' (''packages:'' @ [newline] @ ''  foo: null'')
   = Inl (ReleaseSpecificationError [\<lparr>message = NotAPackage ''foo'', lineNumber = Some 2\<rparr>])"
  by (simp add: validator_defs example_defs spec_lineNumber_def spec_instructional_line_def)

text \<open>
  An empty line does not match the pattern of the code, so it is the first usable line.
  Every generated template has one, between the instructions and the line
  \<^verbatim>\<open>packages:\<close>: there the validator takes the empty line, at index 12, for the first
  usable line, and the number that it attributes to an entry is the number of the line
  before the entry. So it is with array indices as keys: the entries are processed in
  the order of the properties, not of the lines.
\<close>

lemma template_first_usable_line:
  assumes "generateReleaseSpecificationTemplateForMonorepo stringify project isEditorAvailable
             = Inr document"
    and "newline \<notin> set (name (validatedManifest (rootPackage project)))"
  shows "indexOfFirstUsableLine document = 12"
proof -
  let ?body = "stringify (YMap [(''packages'', YMap (template_packages project))])"
  have "document = join_with [newline, newline]
      [instructions (rootPackage project) isEditorAvailable, ?body]"
    using assms(1)
    by (simp add: generateReleaseSpecificationTemplateForMonorepo_def split: if_splits)
  then have "split_lines document
      = instruction_lines (rootPackage project) isEditorAvailable @ [] # split_lines ?body"
    using split_lines_template [OF assms(2)] by simp
  moreover have "list_all matches_comment_or_space
      (instruction_lines (rootPackage project) isEditorAvailable)"
    by (simp add: instruction_lines_def afterEditingInstructions_def matches_comment_or_space_def)
  moreover have "\<not> matches_comment_or_space []"
    by (simp add: matches_comment_or_space_def)
  ultimately have "indexOfFirstUsableLine document
      = int (length (instruction_lines (rootPackage project) isEditorAvailable))"
    by (rule indexOfFirstUsableLine_eq)
  then show ?thesis by (simp add: instruction_lines_comments(1))
qed

lemma template_line_number:
  assumes "generateReleaseSpecificationTemplateForMonorepo example_stringify example_project True
             = Inr document"
  shows "lineNumber_of (indexOfFirstUsableLine document) 0 = 14 \<and>
         split_lines document ! (14 - 1) = ''packages:'' \<and>
         split_lines document ! (15 - 1) = ''  a: null''"
proof -
  have nm: "newline \<notin> set (name (validatedManifest (rootPackage example_project)))"
    by (simp add: example_project_def example_package_def newline_def)
  have "document = join_with [newline, newline]
      [instructions (rootPackage example_project) True,
       example_stringify (YMap [(''packages'', YMap (template_packages example_project))])]"
    using assms
    by (simp add: generateReleaseSpecificationTemplateForMonorepo_def split: if_splits)
  then have "split_lines document
      = instruction_lines (rootPackage example_project) True
        @ [] # split_lines (example_stringify (YMap [(''packages'', YMap [(''a'', YNull), (''b'', YNull)])]))"
    using split_lines_template [OF nm] by (simp add: example_template_packages)
  moreover have "split_lines (example_stringify (YMap [(''packages'', YMap [(''a'', YNull), (''b'', YNull)])]))
      = [''packages:'', ''  a: null'', ''  b: null'', []]"
    by (simp add: example_stringify_def split_lines_def newline_def)
  ultimately have "split_lines document ! (14 - 1) = ''packages:'' \<and>
         split_lines document ! (15 - 1) = ''  a: null''"
    using instruction_lines_comments(1) [of "rootPackage example_project" True]
    by (simp add: nth_append)
  then show ?thesis
    using template_first_usable_line [OF assms nm] by (simp add: lineNumber_of_def)
qed

lemma array_index_keys_reordered:
  "own_entries [(''b'', YNull), (''1'', YNull)] = [(''1'', YNull), (''b'', YNull)]"
  by (simp add: own_entries_def array_index_def numeral_value_def)

end
